theory Spec2Isabelle
  imports Main
begin

section \<open>Python strings\<close>

text \<open>
  A Python \<open>str\<close> is a sequence of Unicode code points; a code point is modelled as a
  natural number and a string as a list of them.  \<open>u\<close> turns a literal into that form.
\<close>

type_synonym ustr = "nat list"

definition u :: "string \<Rightarrow> ustr" where
  "u s = map of_char s"

text \<open>The code points for which \<open>str.isspace\<close> holds: the ones \<open>str.strip()\<close> removes.\<close>

definition is_space :: "nat \<Rightarrow> bool" where
  "is_space c \<longleftrightarrow>
     (9 \<le> c \<and> c \<le> 13) \<or> (28 \<le> c \<and> c \<le> 32) \<or> c = 133 \<or> c = 160 \<or> c = 5760 \<or>
     (8192 \<le> c \<and> c \<le> 8202) \<or> c = 8232 \<or> c = 8233 \<or> c = 8239 \<or> c = 8287 \<or> c = 12288"

text \<open>The line boundaries of \<open>str.splitlines()\<close>; CR LF counts as one boundary.\<close>

definition is_linebreak :: "nat \<Rightarrow> bool" where
  "is_linebreak c \<longleftrightarrow>
     c = 10 \<or> c = 11 \<or> c = 12 \<or> c = 13 \<or> c = 28 \<or> c = 29 \<or> c = 30 \<or> c = 133 \<or>
     c = 8232 \<or> c = 8233"

definition strip :: "ustr \<Rightarrow> ustr" where
  "strip s = rev (dropWhile is_space (rev (dropWhile is_space s)))"

text \<open>\<open>s.rstrip('/')\<close> and \<open>s.endswith('/')\<close>; 47 is the code point of the slash.\<close>

definition rstrip_slash :: "ustr \<Rightarrow> ustr" where
  "rstrip_slash s = rev (dropWhile (\<lambda>c. c = 47) (rev s))"

definition endswith_slash :: "ustr \<Rightarrow> bool" where
  "endswith_slash s \<longleftrightarrow> s \<noteq> [] \<and> last s = 47"

text \<open>
  \<open>str.splitlines()\<close>: the scan keeps the line read so far; a boundary closes the line,
  also an empty one, and the end of the text closes only a line that is not empty.
\<close>

fun splitlines_from :: "ustr \<Rightarrow> ustr \<Rightarrow> ustr list" where
  "splitlines_from line [] = (if line = [] then [] else [line])"
| "splitlines_from line [c] = (if is_linebreak c then [line] else [line @ [c]])"
| "splitlines_from line (c # d # cs) =
     (if is_linebreak c
      then line # (if c = 13 \<and> d = 10 then splitlines_from [] cs
                   else splitlines_from [] (d # cs))
      else splitlines_from (line @ [c]) (d # cs))"

definition splitlines :: "ustr \<Rightarrow> ustr list" where
  "splitlines s = splitlines_from [] s"

text \<open>Decimal rendering of an exit status, as \<open>%d\<close> does.\<close>

fun str_nat :: "nat \<Rightarrow> ustr" where
  "str_nat n = (if n < 10 then [48 + n] else str_nat (n div 10) @ [48 + n mod 10])"

declare str_nat.simps [simp del]

section \<open>\<open>os.path\<close> on POSIX\<close>

definition basename :: "ustr \<Rightarrow> ustr" where
  "basename p = rev (takeWhile (\<lambda>c. c \<noteq> 47) (rev p))"

definition dirname :: "ustr \<Rightarrow> ustr" where
  "dirname p =
     (let head = rev (dropWhile (\<lambda>c. c \<noteq> 47) (rev p))
      in if head \<noteq> [] \<and> \<not> list_all (\<lambda>c. c = 47) head then rstrip_slash head else head)"

definition join :: "ustr \<Rightarrow> ustr \<Rightarrow> ustr" where
  "join a b =
     (if b \<noteq> [] \<and> hd b = 47 then b
      else if a = [] \<or> last a = 47 then a @ b
      else a @ [47] @ b)"

section \<open>\<open>shlex.quote\<close> and the command strings\<close>

text \<open>
  The characters \<open>shlex.quote\<close> leaves alone: ASCII letters, digits, underscore and
  \<open>@%+=:,./-\<close>.
\<close>

definition is_safe :: "nat \<Rightarrow> bool" where
  "is_safe c \<longleftrightarrow>
     (48 \<le> c \<and> c \<le> 57) \<or> (65 \<le> c \<and> c \<le> 90) \<or> (97 \<le> c \<and> c \<le> 122) \<or> c = 95 \<or>
     c = 64 \<or> c = 37 \<or> c = 43 \<or> c = 61 \<or> c = 58 \<or> c = 44 \<or> c = 46 \<or> c = 47 \<or> c = 45"

text \<open>
  \<open>s.replace("'", "'\"'\"'")\<close>: every single quote (39) becomes the five characters
  quote, double quote, quote, double quote, quote.
\<close>

definition replace_squote :: "ustr \<Rightarrow> ustr" where
  "replace_squote s = concat (map (\<lambda>c. if c = 39 then [39, 34, 39, 34, 39] else [c]) s)"

definition shlex_quote :: "ustr \<Rightarrow> ustr" where
  "shlex_quote s =
     (if s = [] then [39, 39]
      else if list_all is_safe s then s
      else [39] @ replace_squote s @ [39])"

definition escape_shell_path :: "ustr \<Rightarrow> ustr" where
  "escape_shell_path path = shlex_quote path"

text \<open>The f-strings that build the commands; 34 is the double quote around the \<open>-c\<close> argument.\<close>

definition lsp_command :: "ustr \<Rightarrow> ustr" where
  "lsp_command remote_path =
     u ''reccli-ts run -c '' @ [34] @ u ''lsp '' @ escape_shell_path remote_path @ [34]"

definition download_command :: "ustr \<Rightarrow> ustr \<Rightarrow> ustr" where
  "download_command remote_file_path local_file_path =
     u ''reccli-ts run -c '' @ [34] @ u ''download '' @ escape_shell_path remote_file_path @
     u '' '' @ escape_shell_path local_file_path @ [34]"

definition rm_command :: "ustr \<Rightarrow> ustr" where
  "rm_command remote_file_path =
     u ''reccli-ts run -c '' @ [34] @ u ''rm '' @ escape_shell_path remote_file_path @ [34]"

definition mkdir_command :: "ustr \<Rightarrow> ustr" where
  "mkdir_command remote_path =
     u ''reccli-ts run -c '' @ [34] @ u ''mkdir '' @ escape_shell_path remote_path @ [34]"

definition upload_command :: "ustr \<Rightarrow> ustr \<Rightarrow> ustr" where
  "upload_command local_file_path parent_folder =
     u ''reccli-ts run -c '' @ [34] @ u ''upload '' @ escape_shell_path local_file_path @
     u '' '' @ escape_shell_path parent_folder @ [34]"

definition lsp_recycle_command :: ustr where
  "lsp_recycle_command = u ''reccli-ts run -c '' @ [34] @ u ''lsp /recycle'' @ [34]"

section \<open>The outside world\<close>

text \<open>
  What a script does to the outside is a trace of events, oldest first.  The outside
  answers each request from the trace so far, so any deterministic run of the external
  client and of the local file system is one environment:
  \<^item> \<open>subprocess_run\<close>: the exit status of the shell, and what a call that captures the
    output gets from the command: \<open>Some\<close> of the text \<open>result.stdout\<close> then holds (the
    standard output decoded, its line endings translated), or \<open>None\<close> when the bytes the
    command wrote to standard output or standard error are not UTF-8.
    The three listing calls capture (\<open>capture_output=True, text=True, encoding="utf-8"\<close>):
    \<open>subprocess.run\<close> decodes both streams before \<open>check=True\<close> looks at the status, so
    on \<open>None\<close> it raises \<open>UnicodeDecodeError\<close> whatever the status, and no \<open>except\<close> of
    the scripts catches that.  The other calls capture nothing and read only the status,
    where \<open>check=True\<close> raises \<open>CalledProcessError\<close> on a status other than 0.  A status
    is a natural number (a shell killed by a signal is not modelled);
  \<^item> \<open>os_makedirs\<close>: whether \<open>os.makedirs(path, exist_ok=True)\<close> returns (otherwise it
    raises \<open>OSError\<close>);
  \<^item> \<open>os_listdir\<close>: the names in a local directory, or \<open>None\<close> where \<open>os.listdir\<close> raises;
  \<^item> \<open>os_path_isdir\<close>: \<open>os.path.isdir\<close>, which never raises.

  \<open>print\<close> is taken to succeed.
\<close>

datatype event =
    Run ustr
  | Print ustr
  | Makedirs ustr
  | Listdir ustr
  | Isdir ustr

datatype exn = OSError ustr | RecursionError | UnicodeDecodeError

datatype outcome = Returned | Raised exn

record env =
  subprocess_run :: "event list \<Rightarrow> ustr \<Rightarrow> nat \<times> ustr option"
  os_makedirs :: "event list \<Rightarrow> ustr \<Rightarrow> bool"
  os_listdir :: "event list \<Rightarrow> ustr \<Rightarrow> ustr list option"
  os_path_isdir :: "event list \<Rightarrow> ustr \<Rightarrow> bool"

text \<open>The text of a \<open>CalledProcessError\<close>, which the scripts print as \<open>{e}\<close>.\<close>

definition str_CalledProcessError :: "ustr \<Rightarrow> nat \<Rightarrow> ustr" where
  "str_CalledProcessError cmd rc =
     u ''Command '' @ [39] @ cmd @ [39] @ u '' returned non-zero exit status '' @
     str_nat rc @ u ''.''"

text \<open>The commands of a trace, in the order they were run.\<close>

definition commands :: "event list \<Rightarrow> ustr list" where
  "commands tr = concat (map (\<lambda>e. case e of Run c \<Rightarrow> [c] | _ \<Rightarrow> []) tr)"

section \<open>\<open>clear_recycle.py\<close>\<close>

definition get_remote_recycle_files ::
  "env \<Rightarrow> event list \<Rightarrow> (exn + ustr list) \<times> event list" where
  "get_remote_recycle_files env st =
     (case subprocess_run env st lsp_recycle_command of
        (rc, None) \<Rightarrow> (Inl UnicodeDecodeError, st @ [Run lsp_recycle_command])
      | (rc, Some out) \<Rightarrow>
          if rc = 0 then (Inr (splitlines out), st @ [Run lsp_recycle_command])
          else (Inr [], st @ [Run lsp_recycle_command,
                  Print (u ''Error retrieving files in recycle: '' @
                         str_CalledProcessError lsp_recycle_command rc)]))"

text \<open>The body of the loop of \<open>clear_recycle\<close> on a name that is not blank.\<close>

definition remove_entry :: "env \<Rightarrow> ustr \<Rightarrow> event list \<Rightarrow> event list" where
  "remove_entry env item_name st =
     (let remote_file_path = u ''/recycle/'' @ item_name;
          command = rm_command remote_file_path
      in if fst (subprocess_run env st command) = 0
         then st @ [Run command, Print (u ''Removed: '' @ remote_file_path)]
         else st @ [Run command,
                Print (u ''Error removing '' @ remote_file_path @ u '': '' @
                       str_CalledProcessError command (fst (subprocess_run env st command)))])"

fun clear_recycle_loop :: "env \<Rightarrow> ustr list \<Rightarrow> event list \<Rightarrow> event list" where
  "clear_recycle_loop env [] st = st"
| "clear_recycle_loop env (item # items) st =
     (let item_name = strip item
      in if item_name = [] then clear_recycle_loop env items st
         else clear_recycle_loop env items (remove_entry env item_name st))"

definition clear_recycle :: "env \<Rightarrow> event list \<Rightarrow> outcome \<times> event list" where
  "clear_recycle env st =
     (case get_remote_recycle_files env st of
        (Inl e, st1) \<Rightarrow> (Raised e, st1)
      | (Inr items, st1) \<Rightarrow> (Returned, clear_recycle_loop env items st1))"

section \<open>\<open>download_folder.py\<close>\<close>

definition download_remote_path :: ustr where
  "download_remote_path = u ''/cloud/download''"

definition download_local_path :: ustr where
  "download_local_path = u ''./download''"

definition get_remote_files ::
  "env \<Rightarrow> ustr \<Rightarrow> event list \<Rightarrow> (exn + ustr list) \<times> event list" where
  "get_remote_files env remote_path st =
     (case subprocess_run env st (lsp_command remote_path) of
        (rc, None) \<Rightarrow> (Inl UnicodeDecodeError, st @ [Run (lsp_command remote_path)])
      | (rc, Some out) \<Rightarrow>
          if rc = 0 then (Inr (splitlines out), st @ [Run (lsp_command remote_path)])
          else (Inr [], st @ [Run (lsp_command remote_path),
                  Print (u ''Error retrieving files in '' @ remote_path @ u '': '' @
                         str_CalledProcessError (lsp_command remote_path) rc)]))"

definition download_file :: "env \<Rightarrow> ustr \<Rightarrow> ustr \<Rightarrow> event list \<Rightarrow> event list" where
  "download_file env remote_file_path local_file_path st =
     (let command = download_command remote_file_path local_file_path
      in if fst (subprocess_run env st command) = 0
         then st @ [Run command,
                Print (u ''Downloaded: '' @ remote_file_path @ u '' -> '' @ local_file_path)]
         else st @ [Run command,
                Print (u ''Error downloading '' @ remote_file_path @ u '': '' @
                       str_CalledProcessError command (fst (subprocess_run env st command)))])"

text \<open>
  \<open>process_remote_path\<close> calls itself for every directory entry.  Python bounds the
  depth of calls: the first argument is the number of nested calls of
  \<open>process_remote_path\<close> the interpreter still allows, and a call beyond it raises
  \<open>RecursionError\<close>, which nothing in the script catches.  \<open>process_items\<close> is the
  \<open>for\<close> loop and \<open>process_item\<close> its body after the blank-line \<open>continue\<close>.
\<close>

function (sequential)
  process_remote_path :: "nat \<Rightarrow> env \<Rightarrow> ustr \<Rightarrow> ustr \<Rightarrow> event list \<Rightarrow> outcome \<times> event list"
  and process_items ::
    "nat \<Rightarrow> env \<Rightarrow> ustr \<Rightarrow> ustr \<Rightarrow> ustr list \<Rightarrow> event list \<Rightarrow> outcome \<times> event list"
  and process_item ::
    "nat \<Rightarrow> env \<Rightarrow> ustr \<Rightarrow> ustr \<Rightarrow> ustr \<Rightarrow> event list \<Rightarrow> outcome \<times> event list"
where
  "process_remote_path 0 env remote_path local_path st = (Raised RecursionError, st)"
| "process_remote_path (Suc d) env remote_path local_path st =
     (case get_remote_files env remote_path st of
        (Inl e, st1) \<Rightarrow> (Raised e, st1)
      | (Inr items, st1) \<Rightarrow> process_items d env remote_path local_path items st1)"
| "process_items d env remote_path local_path [] st = (Returned, st)"
| "process_items d env remote_path local_path (item # items) st =
     (let item_name = strip item
      in if item_name = [] then process_items d env remote_path local_path items st
         else (case process_item d env remote_path local_path item_name st of
                 (Returned, st1) \<Rightarrow> process_items d env remote_path local_path items st1
               | (Raised e, st1) \<Rightarrow> (Raised e, st1)))"
| "process_item d env remote_path local_path item_name st =
     (let remote_item_path = remote_path @ [47] @ item_name
      in if endswith_slash item_name
         then (let local_dir_path = join local_path (rstrip_slash item_name)
               in if os_makedirs env st local_dir_path
                  then process_remote_path d env (rstrip_slash remote_item_path) local_dir_path
                         (st @ [Makedirs local_dir_path])
                  else (Raised (OSError local_dir_path), st @ [Makedirs local_dir_path]))
         else (Returned,
               download_file env remote_item_path (join local_path item_name) st))"
  by pat_completeness auto

termination
  by (relation "inv_image (less_than <*lex*> less_than <*lex*> less_than)
        (\<lambda>x. case x of
           Inl (d, env, r, l, st) \<Rightarrow> (d, 0::nat, 0::nat)
         | Inr (Inl (d, env, r, l, items, st)) \<Rightarrow> (d, 2, length items)
         | Inr (Inr (d, env, r, l, n, st)) \<Rightarrow> (d, 1, 0))")
     (auto split: prod.splits sum.splits)

declare process_item.simps [simp del]

text \<open>
  The script: the module creates the local root when it is loaded, then the entry point
  starts the traversal at the two configured roots.
\<close>

definition download_main :: "nat \<Rightarrow> env \<Rightarrow> outcome \<times> event list" where
  "download_main d env =
     (if os_makedirs env [] download_local_path
      then process_remote_path d env download_remote_path download_local_path
             [Makedirs download_local_path]
      else (Raised (OSError download_local_path), [Makedirs download_local_path]))"

section \<open>\<open>upload_folder.py\<close>\<close>

definition upload_local_path :: ustr where
  "upload_local_path = u ''./upload''"

definition upload_remote_path :: ustr where
  "upload_remote_path = u ''/cloud/upload''"

definition remote_path_exists ::
  "env \<Rightarrow> ustr \<Rightarrow> event list \<Rightarrow> (exn + bool) \<times> event list" where
  "remote_path_exists env remote_path st =
     (let parent_path = dirname (rstrip_slash remote_path);
          directory_name = basename (rstrip_slash remote_path)
      in case subprocess_run env st (lsp_command parent_path) of
           (rc, None) \<Rightarrow> (Inl UnicodeDecodeError, st @ [Run (lsp_command parent_path)])
         | (rc, Some out) \<Rightarrow>
             if rc = 0
             then (Inr (list_ex (\<lambda>item. strip item = directory_name @ [47]) (splitlines out)),
                   st @ [Run (lsp_command parent_path)])
             else (Inr False, st @ [Run (lsp_command parent_path)]))"

definition ensure_remote_path :: "env \<Rightarrow> ustr \<Rightarrow> event list \<Rightarrow> outcome \<times> event list" where
  "ensure_remote_path env remote_path st =
     (case remote_path_exists env remote_path st of
        (Inl e, st1) \<Rightarrow> (Raised e, st1)
      | (Inr found, st1) \<Rightarrow>
          if \<not> found
          then (let command = mkdir_command remote_path
                in if fst (subprocess_run env st1 command) = 0
                   then (Returned,
                         st1 @ [Run command,
                           Print (u ''Created remote directory: '' @ remote_path)])
                   else (Returned,
                         st1 @ [Run command,
                           Print (u ''Error creating directory '' @ remote_path @ u '': '' @
                                  str_CalledProcessError command
                                    (fst (subprocess_run env st1 command)))]))
          else (Returned, st1))"

definition upload_file :: "env \<Rightarrow> ustr \<Rightarrow> ustr \<Rightarrow> event list \<Rightarrow> outcome \<times> event list" where
  "upload_file env local_file_path remote_file_path st =
     (let parent_folder = dirname remote_file_path
      in case ensure_remote_path env parent_folder st of
           (Raised e, st1) \<Rightarrow> (Raised e, st1)
         | (Returned, st1) \<Rightarrow>
             (let command = upload_command local_file_path parent_folder
              in if fst (subprocess_run env st1 command) = 0
                 then (Returned,
                       st1 @ [Run command,
                         Print (u ''Uploaded: '' @ local_file_path @ u '' -> '' @
                                remote_file_path)])
                 else (Returned,
                       st1 @ [Run command,
                         Print (u ''Error uploading '' @ local_file_path @ u '': '' @
                                str_CalledProcessError command
                                  (fst (subprocess_run env st1 command)))])))"

text \<open>
  \<open>process_local_path\<close> recurses into local directories, under the same bound on the
  depth of calls; \<open>process_local_items\<close> is its \<open>for\<close> loop over \<open>os.listdir\<close>.
\<close>

function (sequential)
  process_local_path :: "nat \<Rightarrow> env \<Rightarrow> ustr \<Rightarrow> ustr \<Rightarrow> event list \<Rightarrow> outcome \<times> event list"
  and process_local_items ::
    "nat \<Rightarrow> env \<Rightarrow> ustr \<Rightarrow> ustr \<Rightarrow> ustr list \<Rightarrow> event list \<Rightarrow> outcome \<times> event list"
where
  "process_local_path 0 env local_path remote_path st = (Raised RecursionError, st)"
| "process_local_path (Suc d) env local_path remote_path st =
     (case ensure_remote_path env remote_path st of
        (Raised e, st1) \<Rightarrow> (Raised e, st1)
      | (Returned, st1) \<Rightarrow>
          (case os_listdir env st1 local_path of
             None \<Rightarrow> (Raised (OSError local_path), st1 @ [Listdir local_path])
           | Some names \<Rightarrow>
               process_local_items d env local_path remote_path names
                 (st1 @ [Listdir local_path])))"
| "process_local_items d env local_path remote_path [] st = (Returned, st)"
| "process_local_items d env local_path remote_path (item # items) st =
     (let local_item_path = join local_path item;
          remote_item_path = remote_path @ [47] @ item
      in if os_path_isdir env st local_item_path
         then (case ensure_remote_path env remote_item_path (st @ [Isdir local_item_path]) of
                 (Raised e, st1) \<Rightarrow> (Raised e, st1)
               | (Returned, st1) \<Rightarrow>
                   (case process_local_path d env local_item_path remote_item_path st1 of
                      (Returned, st2) \<Rightarrow>
                        process_local_items d env local_path remote_path items st2
                    | (Raised e, st2) \<Rightarrow> (Raised e, st2)))
         else (case upload_file env local_item_path remote_item_path
                      (st @ [Isdir local_item_path]) of
                 (Returned, st1) \<Rightarrow>
                   process_local_items d env local_path remote_path items st1
               | (Raised e, st1) \<Rightarrow> (Raised e, st1)))"
  by pat_completeness auto

termination
  by (relation "inv_image (less_than <*lex*> less_than <*lex*> less_than)
        (\<lambda>x. case x of
           Inl (d, env, l, r, st) \<Rightarrow> (d, 0::nat, 0::nat)
         | Inr (d, env, l, r, items, st) \<Rightarrow> (d, 1, length items))")
     (auto split: prod.splits option.splits)

definition upload_main :: "nat \<Rightarrow> env \<Rightarrow> outcome \<times> event list" where
  "upload_main d env = process_local_path d env upload_local_path upload_remote_path []"

section \<open>The listing as the specification reads it\<close>

text \<open>
  The entry sequence of a listing in the specification's words: every line trimmed, the
  blank ones left out, the order kept.
\<close>

definition parsed_entries :: "ustr list \<Rightarrow> ustr list" where
  "parsed_entries items = filter (\<lambda>n. n \<noteq> []) (map strip items)"

text \<open>
  Running a loop body over a sequence of entries, one after the other; an exception the
  body raises ends the loop and propagates.
\<close>

fun for_each ::
  "(ustr \<Rightarrow> event list \<Rightarrow> outcome \<times> event list) \<Rightarrow> ustr list \<Rightarrow> event list \<Rightarrow>
   outcome \<times> event list" where
  "for_each body [] st = (Returned, st)"
| "for_each body (n # ns) st =
     (case body n st of
        (Returned, st1) \<Rightarrow> for_each body ns st1
      | (Raised e, st1) \<Rightarrow> (Raised e, st1))"

section \<open>Un-escaping by a shell\<close>

text \<open>
  The specification's "un-escaped by a shell", which is what
  \<open>subprocess.run(command, shell=True)\<close> hands the command string to: the word
  splitting and quote removal of the POSIX shell, for a command line of literal words.
  Outside quotes, blanks separate words, a backslash makes the next character literal,
  and a character the shell acts on (an operator, \<open>$\<close>, a backquote, a pattern or
  comment character, a newline) ends the reading with \<open>Interpreted\<close>.  Between single
  quotes every character is literal.  Between double quotes \<open>$\<close> and the backquote are
  still acted on, and a backslash escapes only \<open>$\<close>, backquote, double quote, backslash
  and newline.  A quote that is never closed gives \<open>Unterminated\<close>.
\<close>

datatype sh_parse = Words "ustr list" | Unterminated | Interpreted

definition is_sh_meta :: "nat \<Rightarrow> bool" where
  "is_sh_meta c \<longleftrightarrow> c \<in> set (u ''|&;<>()$`*?[#~{}!'') \<or> c = 10"

definition add_word :: "ustr \<Rightarrow> sh_parse \<Rightarrow> sh_parse" where
  "add_word w r = (case r of Words ws \<Rightarrow> Words (w # ws) | Unterminated \<Rightarrow> Unterminated
                   | Interpreted \<Rightarrow> Interpreted)"

definition word_so_far :: "ustr option \<Rightarrow> ustr" where
  "word_so_far cur = (case cur of None \<Rightarrow> [] | Some w \<Rightarrow> w)"

function (sequential)
  sh_unquoted :: "ustr option \<Rightarrow> ustr \<Rightarrow> sh_parse"
  and sh_single :: "ustr \<Rightarrow> ustr \<Rightarrow> sh_parse"
  and sh_double :: "ustr \<Rightarrow> ustr \<Rightarrow> sh_parse"
where
  "sh_unquoted cur [] = (case cur of None \<Rightarrow> Words [] | Some w \<Rightarrow> Words [w])"
| "sh_unquoted cur (c # cs) =
     (if c = 32 \<or> c = 9
      then (case cur of None \<Rightarrow> sh_unquoted None cs
                      | Some w \<Rightarrow> add_word w (sh_unquoted None cs))
      else if c = 39 then sh_single (word_so_far cur) cs
      else if c = 34 then sh_double (word_so_far cur) cs
      else if c = 92
      then (case cs of
              [] \<Rightarrow> Interpreted
            | d # ds \<Rightarrow> if d = 10 then sh_unquoted cur ds
                       else sh_unquoted (Some (word_so_far cur @ [d])) ds)
      else if is_sh_meta c then Interpreted
      else sh_unquoted (Some (word_so_far cur @ [c])) cs)"
| "sh_single w [] = Unterminated"
| "sh_single w (c # cs) =
     (if c = 39 then sh_unquoted (Some w) cs else sh_single (w @ [c]) cs)"
| "sh_double w [] = Unterminated"
| "sh_double w (c # cs) =
     (if c = 34 then sh_unquoted (Some w) cs
      else if c = 36 \<or> c = 96 then Interpreted
      else if c = 92
      then (case cs of
              [] \<Rightarrow> Unterminated
            | d # ds \<Rightarrow> if d = 36 \<or> d = 96 \<or> d = 34 \<or> d = 92 then sh_double (w @ [d]) ds
                       else if d = 10 then sh_double w ds
                       else sh_double (w @ [92, d]) ds)
      else sh_double (w @ [c]) cs)"
  by pat_completeness auto

termination
  by (relation "measure (\<lambda>x. case x of
           Inl (cur, s) \<Rightarrow> length s
         | Inr (Inl (w, s)) \<Rightarrow> length s
         | Inr (Inr (w, s)) \<Rightarrow> length s)")
     auto

definition sh_words :: "ustr \<Rightarrow> sh_parse" where
  "sh_words s = sh_unquoted None s"

section \<open>Environments to run the scripts in\<close>

text \<open>
  A fixed outside world: a table from command strings to exit status and decoded
  output (a command that is not in the table exits with status 1 and writes nothing),
  and a table of the local directories with their entries.  Every \<open>os.makedirs\<close>
  succeeds.
\<close>

definition table_env ::
  "(ustr \<times> nat \<times> ustr option) list \<Rightarrow> (ustr \<times> ustr list) list \<Rightarrow> env" where
  "table_env cmds dirs =
     \<lparr>subprocess_run = (\<lambda>h cmd. case map_of cmds cmd of Some r \<Rightarrow> r | None \<Rightarrow> (1, Some [])),
      os_makedirs = (\<lambda>h p. True),
      os_listdir = (\<lambda>h p. map_of dirs p),
      os_path_isdir = (\<lambda>h p. map_of dirs p \<noteq> None)\<rparr>"

text \<open>A recycle bin with two files, where only \<open>y.txt\<close> can be removed.\<close>

definition recycle_env_xy :: env where
  "recycle_env_xy =
     table_env [(u ''reccli-ts run -c \"lsp /recycle\"'', 0, Some (u ''x.txt\<newline>y.txt\<newline>'')),
                (u ''reccli-ts run -c \"rm /recycle/y.txt\"'', 0, Some [])] []"

text \<open>A recycle bin that holds one directory.\<close>

definition recycle_env_sub :: env where
  "recycle_env_sub =
     table_env [(u ''reccli-ts run -c \"lsp /recycle\"'', 0, Some (u ''sub/\<newline>'')),
                (u ''reccli-ts run -c \"rm /recycle/sub/\"'', 0, Some [])] []"

text \<open>A listing with blank lines, padding and the three kinds of line ending.\<close>

definition listing_env :: env where
  "listing_env =
     table_env [(u ''reccli-ts run -c \"lsp /cloud/download\"'', 0,
                 Some [32, 97, 46, 116, 120, 116, 9, 13, 10, 10, 32, 32, 13, 98, 32, 99, 10])]
               []"



text \<open>The remote tree \<open>/cloud/download/{a.txt, sub/b.txt}\<close>, every command succeeding.\<close>

definition download_tree_env :: env where
  "download_tree_env =
     table_env
       [(u ''reccli-ts run -c \"lsp /cloud/download\"'', 0, Some (u ''a.txt\<newline>sub/\<newline>'')),
        (u ''reccli-ts run -c \"lsp /cloud/download/sub\"'', 0, Some (u ''b.txt\<newline>'')),
        (u ''reccli-ts run -c \"download /cloud/download/a.txt ./download/a.txt\"'', 0, Some []),
        (u ''reccli-ts run -c \"download /cloud/download/sub/b.txt ./download/sub/b.txt\"'', 0,
         Some [])]
       []"




text \<open>
  A local tree \<open>./upload/{a.txt, gone/, z.txt}\<close> where the directory \<open>gone\<close> cannot be read,
  against a remote store on which every command fails.
\<close>

definition unreadable_env :: env where
  "unreadable_env =
     \<lparr>subprocess_run = (\<lambda>h cmd. (1, Some [])),
      os_makedirs = (\<lambda>h p. True),
      os_listdir = (\<lambda>h p. if p = u ''./upload'' then Some [u ''a.txt'', u ''gone'', u ''z.txt'']
                           else None),
      os_path_isdir = (\<lambda>h p. p = u ''./upload'' \<or> p = u ''./upload/gone'')\<rparr>"

section \<open>Strings and listings\<close>

lemma trim_ends:
  assumes "t = rev (dropWhile P (rev (dropWhile P s)))" and "t \<noteq> []"
  shows "\<not> P (hd t) \<and> \<not> P (last t)"
proof -
  define ys where "ys = dropWhile P s"
  define zs where "zs = dropWhile P (rev ys)"
  have t: "t = rev zs" using assms(1) by (simp add: ys_def zs_def)
  with assms(2) have zs: "zs \<noteq> []" by simp
  then have hz: "\<not> P (hd zs)" unfolding zs_def by (rule hd_dropWhile)
  from zs have ys: "ys \<noteq> []" by (auto simp: zs_def)
  then have hy: "\<not> P (hd ys)" unfolding ys_def by (rule hd_dropWhile)
  have "rev ys = takeWhile P (rev ys) @ zs" by (simp add: zs_def)
  then have "last (rev ys) = last zs" using zs by (metis last_appendR)
  then have "last zs = hd ys" using ys by (simp add: last_rev)
  then show ?thesis using hz hy t zs by (simp add: hd_rev last_rev)
qed

lemma trim_fixed:
  assumes "t \<noteq> []" "\<not> P (hd t)" "\<not> P (last t)"
  shows "rev (dropWhile P (rev (dropWhile P t))) = t"
proof -
  have 1: "dropWhile P t = t" using assms by (cases t) auto
  have "rev t \<noteq> []" "\<not> P (hd (rev t))" using assms by (auto simp: hd_rev)
  then have 2: "dropWhile P (rev t) = rev t" by (cases "rev t") auto
  show ?thesis by (simp add: 1 2)
qed

lemma strip_ends: "strip s \<noteq> [] \<Longrightarrow> \<not> is_space (hd (strip s)) \<and> \<not> is_space (last (strip s))"
  by (rule trim_ends [where s = s]) (simp_all add: strip_def)

lemma strip_strip: "strip (strip s) = strip s"
proof (cases "strip s = []")
  case True
  have "strip [] = []" by (simp add: strip_def)
  with True show ?thesis by simp
next
  case False
  then show ?thesis using strip_ends [OF False] trim_fixed [of "strip s" is_space]
    by (simp add: strip_def)
qed

lemma strip_Nil_iff: "strip s = [] \<longleftrightarrow> list_all is_space s"
proof
  assume "strip s = []"
  then have "dropWhile is_space (rev (dropWhile is_space s)) = []" by (simp add: strip_def)
  then have a: "\<forall>x \<in> set (dropWhile is_space s). is_space x" by (simp add: dropWhile_eq_Nil_conv)
  have "dropWhile is_space s = []"
  proof (rule ccontr)
    assume n: "dropWhile is_space s \<noteq> []"
    then have "\<not> is_space (hd (dropWhile is_space s))" by (rule hd_dropWhile)
    moreover have "hd (dropWhile is_space s) \<in> set (dropWhile is_space s)" using n by simp
    ultimately show False using a by blast
  qed
  then show "list_all is_space s" by (simp add: dropWhile_eq_Nil_conv list_all_iff)
next
  assume "list_all is_space s"
  then have "\<forall>x \<in> set s. is_space x" by (simp add: list_all_iff)
  then have d: "dropWhile is_space s = []" by simp
  show "strip s = []" unfolding strip_def d by simp
qed

lemma parsed_entries_Nil [simp]: "parsed_entries [] = []"
  by (simp add: parsed_entries_def)

lemma parsed_entries_Cons:
  "parsed_entries (item # items) =
     (if strip item = [] then parsed_entries items else strip item # parsed_entries items)"
  by (simp add: parsed_entries_def)

lemma parsed_entries_trimmed:
  "n \<in> set (parsed_entries items) \<Longrightarrow> n \<noteq> [] \<and> strip n = n"
  by (auto simp: parsed_entries_def strip_strip)

lemma parsed_entries_filter_map:
  "parsed_entries items = map strip (filter (\<lambda>l. \<not> list_all is_space l) items)"
  by (induction items) (simp_all add: parsed_entries_Cons strip_Nil_iff)

lemma clear_recycle_loop_foldl:
  "clear_recycle_loop env items st = foldl (\<lambda>s n. remove_entry env n s) st (parsed_entries items)"
  by (induction items arbitrary: st) (simp_all add: parsed_entries_Cons Let_def)

lemma commands_append [simp]: "commands (xs @ ys) = commands xs @ commands ys"
  by (simp add: commands_def)

lemma commands_simps [simp]:
  "commands [] = []"
  "commands (Run c # tr) = c # commands tr"
  "commands (Print m # tr) = commands tr"
  "commands (Makedirs p # tr) = commands tr"
  "commands (Listdir p # tr) = commands tr"
  "commands (Isdir p # tr) = commands tr"
  by (simp_all add: commands_def)

lemma commands_remove_entry:
  "commands (remove_entry env n st) = commands st @ [rm_command (u ''/recycle/'' @ n)]"
  by (simp add: remove_entry_def Let_def)

lemma commands_foldl_remove:
  "commands (foldl (\<lambda>s n. remove_entry env n s) st ns) =
     commands st @ map (\<lambda>n. rm_command (u ''/recycle/'' @ n)) ns"
  by (induction ns arbitrary: st) (simp_all add: commands_remove_entry)

lemmas string_eval =
  u_def strip_def is_space_def splitlines_def is_linebreak_def rstrip_slash_def
  endswith_slash_def basename_def dirname_def join_def

lemmas command_eval =
  lsp_command_def download_command_def rm_command_def mkdir_command_def upload_command_def
  lsp_recycle_command_def escape_shell_path_def shlex_quote_def is_safe_def replace_squote_def
  str_CalledProcessError_def

lemma str_nat_1 [simp]: "str_nat 1 = [49]" "str_nat (Suc 0) = [49]"
  by (simp_all add: str_nat.simps)

section \<open>Purging the recycle bin\<close>

lemma clear_recycle_listed:
  "subprocess_run env st lsp_recycle_command = (0, Some out) \<Longrightarrow>
     clear_recycle env st =
       (Returned,
        foldl (\<lambda>s n. remove_entry env n s) (st @ [Run lsp_recycle_command])
          (parsed_entries (splitlines out)))"
  by (simp add: clear_recycle_def get_remote_recycle_files_def clear_recycle_loop_foldl)

text \<open>
  C5: \<open>clear_recycle\<close> lists the fixed path \<open>/recycle\<close>, by the command
  \<open>reccli-ts run -c "lsp /recycle"\<close>, and, for every entry of the listing that is not
  blank, runs the remove command \<open>reccli-ts run -c "rm \<dots>"\<close> on the escaped
  \<open>"/recycle/" + name\<close>.  The entries are handled one after the other whatever the exit
  status of each removal: the commands run do not depend on it, a failed removal prints
  its error and the loop goes on.
\<close>

theorem purge_recycle_removes_every_entry:
  assumes "subprocess_run env st lsp_recycle_command = (0, Some out)"
  shows "lsp_recycle_command = u ''reccli-ts run -c \"lsp /recycle\"''
       \<and> (\<forall>p. rm_command p = u ''reccli-ts run -c \"rm '' @ escape_shell_path p @ u ''\"'')
       \<and> clear_recycle env st =
           (Returned,
            foldl (\<lambda>s n. remove_entry env n s) (st @ [Run lsp_recycle_command])
              (parsed_entries (splitlines out)))
       \<and> commands (snd (clear_recycle env st)) =
           commands st @ lsp_recycle_command #
             map (\<lambda>n. rm_command (u ''/recycle/'' @ n)) (parsed_entries (splitlines out))
       \<and> (\<forall>n s. remove_entry env n s =
             s @ [Run (rm_command (u ''/recycle/'' @ n)),
                  Print (if fst (subprocess_run env s (rm_command (u ''/recycle/'' @ n))) = 0
                         then u ''Removed: '' @ u ''/recycle/'' @ n
                         else u ''Error removing '' @ u ''/recycle/'' @ n @ u '': '' @
                              str_CalledProcessError (rm_command (u ''/recycle/'' @ n))
                                (fst (subprocess_run env s (rm_command (u ''/recycle/'' @ n)))))])"
proof -
  note 1 = clear_recycle_listed [OF assms]
  have 2: "commands (snd (clear_recycle env st)) =
           commands st @ lsp_recycle_command #
             map (\<lambda>n. rm_command (u ''/recycle/'' @ n)) (parsed_entries (splitlines out))"
    unfolding 1 by (simp add: commands_foldl_remove)
  have 3: "remove_entry env n s =
             s @ [Run (rm_command (u ''/recycle/'' @ n)),
                  Print (if fst (subprocess_run env s (rm_command (u ''/recycle/'' @ n))) = 0
                         then u ''Removed: '' @ u ''/recycle/'' @ n
                         else u ''Error removing '' @ u ''/recycle/'' @ n @ u '': '' @
                              str_CalledProcessError (rm_command (u ''/recycle/'' @ n))
                                (fst (subprocess_run env s (rm_command (u ''/recycle/'' @ n)))))]"
    for n s
    by (simp add: remove_entry_def Let_def)
  have 4: "lsp_recycle_command = u ''reccli-ts run -c \"lsp /recycle\"''"
    by (simp add: lsp_recycle_command_def u_def)
  have 5: "\<forall>p. rm_command p = u ''reccli-ts run -c \"rm '' @ escape_shell_path p @ u ''\"''"
    by (simp add: rm_command_def u_def)
  from 3 have 6: "\<forall>n s. remove_entry env n s =
             s @ [Run (rm_command (u ''/recycle/'' @ n)),
                  Print (if fst (subprocess_run env s (rm_command (u ''/recycle/'' @ n))) = 0
                         then u ''Removed: '' @ u ''/recycle/'' @ n
                         else u ''Error removing '' @ u ''/recycle/'' @ n @ u '': '' @
                              str_CalledProcessError (rm_command (u ''/recycle/'' @ n))
                                (fst (subprocess_run env s (rm_command (u ''/recycle/'' @ n)))))]"
    by blast
  show ?thesis by (intro conjI) (rule 1 2 4 5 6)+
qed

lemma xy_entries: "parsed_entries (splitlines (u ''x.txt\<newline>y.txt\<newline>'')) = [u ''x.txt'', u ''y.txt'']"
  by (simp add: parsed_entries_def string_eval)

theorem purge_recycle_removes_every_entry_witness:
  "subprocess_run recycle_env_xy [] (u ''reccli-ts run -c \"lsp /recycle\"'') =
     (0, Some (u ''x.txt\<newline>y.txt\<newline>''))
   \<and> clear_recycle recycle_env_xy [] =
       (Returned,
        [Run (u ''reccli-ts run -c \"lsp /recycle\"''),
         Run (u ''reccli-ts run -c \"rm /recycle/x.txt\"''),
         Print (u ''Error removing /recycle/x.txt: Command 'reccli-ts run -c \"rm /recycle/x.txt\"' returned non-zero exit status 1.''),
         Run (u ''reccli-ts run -c \"rm /recycle/y.txt\"''),
         Print (u ''Removed: /recycle/y.txt'')])"
proof -
  have c: "lsp_recycle_command = u ''reccli-ts run -c \"lsp /recycle\"''"
          "rm_command (u ''/recycle/x.txt'') = u ''reccli-ts run -c \"rm /recycle/x.txt\"''"
          "rm_command (u ''/recycle/y.txt'') = u ''reccli-ts run -c \"rm /recycle/y.txt\"''"
    by (simp_all add: command_eval u_def)
  have h: "subprocess_run recycle_env_xy [] lsp_recycle_command =
             (0, Some (u ''x.txt\<newline>y.txt\<newline>''))"
    unfolding c by (simp add: recycle_env_xy_def table_env_def)
  have x: "fst (subprocess_run recycle_env_xy s (rm_command (u ''/recycle/x.txt''))) = 1" for s
    unfolding c by (simp add: recycle_env_xy_def table_env_def u_def)
  have y: "fst (subprocess_run recycle_env_xy s (rm_command (u ''/recycle/y.txt''))) = 0" for s
    unfolding c by (simp add: recycle_env_xy_def table_env_def u_def)
  have e: "u ''/recycle/'' @ u ''x.txt'' = u ''/recycle/x.txt''"
          "u ''/recycle/'' @ u ''y.txt'' = u ''/recycle/y.txt''"
    by (simp_all add: u_def)
  note t = purge_recycle_removes_every_entry [OF h]
  note f = t [THEN conjunct2, THEN conjunct2, THEN conjunct1]
  note r = t [THEN conjunct2, THEN conjunct2, THEN conjunct2, THEN conjunct2, rule_format]
  have rx: "remove_entry recycle_env_xy (u ''x.txt'') s =
              s @ [Run (u ''reccli-ts run -c \"rm /recycle/x.txt\"''),
                   Print (u ''Error removing /recycle/x.txt: Command 'reccli-ts run -c \"rm /recycle/x.txt\"' returned non-zero exit status 1.'')]"
    for s
    by (simp add: r e x) (simp add: command_eval u_def)
  have ry: "remove_entry recycle_env_xy (u ''y.txt'') s =
              s @ [Run (u ''reccli-ts run -c \"rm /recycle/y.txt\"''),
                   Print (u ''Removed: /recycle/y.txt'')]"
    for s
    by (simp add: r e y) (simp add: command_eval u_def)
  have "clear_recycle recycle_env_xy [] =
          (Returned,
           remove_entry recycle_env_xy (u ''y.txt'')
             (remove_entry recycle_env_xy (u ''x.txt'')
                [Run (u ''reccli-ts run -c \"lsp /recycle\"'')]))"
    unfolding f xy_entries c by simp
  then show ?thesis using h unfolding c rx ry by simp
qed

lemma remove_entry_extends:
  "\<exists>m. remove_entry env n s = s @ [Run (rm_command (u ''/recycle/'' @ n)), Print m]"
  by (simp add: remove_entry_def Let_def)

lemma foldl_remove_extends:
  "take (length st) (foldl (\<lambda>s n. remove_entry env n s) st ns) = st"
proof (induction ns arbitrary: st)
  case Nil
  show ?case by simp
next
  case (Cons n ns)
  obtain m where m: "remove_entry env n st = st @ [Run (rm_command (u ''/recycle/'' @ n)), Print m]"
    using remove_entry_extends by blast
  have "take (length (remove_entry env n st)) (foldl (\<lambda>s n. remove_entry env n s) (remove_entry env n st) ns)
          = remove_entry env n st"
    by (rule Cons.IH)
  then have "take (length st) (take (length (remove_entry env n st))
               (foldl (\<lambda>s n. remove_entry env n s) (remove_entry env n st) ns)) = take (length st) (remove_entry env n st)"
    by simp
  then show ?case by (simp add: m)
qed

lemma lsp_not_rm: "lsp_command p \<noteq> rm_command q"
  by (simp add: lsp_command_def rm_command_def u_def)

lemma lsp_recycle_not_rm: "lsp_recycle_command \<noteq> rm_command q"
  by (simp add: lsp_recycle_command_def rm_command_def u_def)

lemma recycle_path_keeps_slash:
  "endswith_slash n \<Longrightarrow>
     endswith_slash (u ''/recycle/'' @ n) \<and> u ''/recycle/'' @ n \<noteq> u ''/recycle/'' @ rstrip_slash n"
proof -
  assume a: "endswith_slash n"
  then have n: "n \<noteq> []" "last n = 47" by (simp_all add: endswith_slash_def)
  then have "hd (rev n) = 47" "rev n \<noteq> []" by (simp_all add: hd_rev)
  then have "length (dropWhile (\<lambda>c. c = 47) (rev n)) < length (rev n)"
    by (cases "rev n") (auto simp: le_imp_less_Suc length_dropWhile_le)
  then have "rstrip_slash n \<noteq> n"
    by (auto simp: rstrip_slash_def) (metis length_rev less_irrefl)
  then show ?thesis using n by (simp add: endswith_slash_def)
qed

text \<open>
  C9: \<open>clear_recycle\<close> lists \<open>/recycle\<close> once and never lists anything else: after the
  listing, the commands it runs are exactly one remove command per entry, on
  \<open>"/recycle/" + name\<close> with the trimmed name as listed.  A trailing slash stays in that
  path, so a directory entry is removed by one command and not traversed.
\<close>

theorem purge_recycle_never_recurses:
  assumes "subprocess_run env st lsp_recycle_command = (0, Some out)"
  shows "fst (clear_recycle env st) = Returned
       \<and> take (Suc (length st)) (snd (clear_recycle env st)) = st @ [Run lsp_recycle_command]
       \<and> commands (drop (Suc (length st)) (snd (clear_recycle env st))) =
           map (\<lambda>n. rm_command (u ''/recycle/'' @ n)) (parsed_entries (splitlines out))
       \<and> (\<forall>p. lsp_command p \<notin>
                set (commands (drop (Suc (length st)) (snd (clear_recycle env st)))))
       \<and> lsp_recycle_command \<notin>
           set (commands (drop (Suc (length st)) (snd (clear_recycle env st))))
       \<and> (\<forall>n \<in> set (parsed_entries (splitlines out)). endswith_slash n \<longrightarrow>
             endswith_slash (u ''/recycle/'' @ n) \<and>
             u ''/recycle/'' @ n \<noteq> u ''/recycle/'' @ rstrip_slash n)
       \<and> lsp_recycle_command = u ''reccli-ts run -c \"lsp /recycle\"''
       \<and> (\<forall>p. rm_command p = u ''reccli-ts run -c \"rm '' @ escape_shell_path p @ u ''\"'')"
proof -
  let ?ns = "parsed_entries (splitlines out)"
  let ?st1 = "st @ [Run lsp_recycle_command]"
  let ?tr = "snd (clear_recycle env st)"
  have c: "?tr = foldl (\<lambda>s n. remove_entry env n s) ?st1 ?ns"
    by (simp add: clear_recycle_listed [OF assms])
  have f: "fst (clear_recycle env st) = Returned"
    by (simp add: clear_recycle_listed [OF assms])
  have t: "take (Suc (length st)) ?tr = ?st1"
    using foldl_remove_extends [of ?st1 env ?ns] by (simp add: c)
  have "commands ?tr = commands (take (Suc (length st)) ?tr)
          @ commands (drop (Suc (length st)) ?tr)"
    by (metis append_take_drop_id commands_append)
  then have "commands ?st1 @ map (\<lambda>n. rm_command (u ''/recycle/'' @ n)) ?ns
          = commands ?st1 @ commands (drop (Suc (length st)) ?tr)"
    unfolding t unfolding c commands_foldl_remove .
  then have d: "commands (drop (Suc (length st)) ?tr) =
           map (\<lambda>n. rm_command (u ''/recycle/'' @ n)) ?ns"
    by simp
  have l: "lsp_command p \<notin> set (commands (drop (Suc (length st)) ?tr))" for p
    unfolding d using lsp_not_rm by auto
  have r: "lsp_recycle_command \<notin> set (commands (drop (Suc (length st)) ?tr))"
    unfolding d using lsp_recycle_not_rm by auto
  have 4: "lsp_recycle_command = u ''reccli-ts run -c \"lsp /recycle\"''"
    by (simp add: lsp_recycle_command_def u_def)
  have 5: "\<forall>p. rm_command p = u ''reccli-ts run -c \"rm '' @ escape_shell_path p @ u ''\"''"
    by (simp add: rm_command_def u_def)
  have 6: "\<forall>p. lsp_command p \<notin> set (commands (drop (Suc (length st)) ?tr))"
    using l by blast
  have 7: "\<forall>n \<in> set (parsed_entries (splitlines out)). endswith_slash n \<longrightarrow>
             endswith_slash (u ''/recycle/'' @ n) \<and>
             u ''/recycle/'' @ n \<noteq> u ''/recycle/'' @ rstrip_slash n"
    using recycle_path_keeps_slash by blast
  show ?thesis by (intro conjI) (rule f t d r 4 5 6 7)+
qed

theorem purge_recycle_never_recurses_witness:
  "subprocess_run recycle_env_sub [] (u ''reccli-ts run -c \"lsp /recycle\"'') =
     (0, Some (u ''sub/\<newline>''))
   \<and> commands (snd (clear_recycle recycle_env_sub [])) =
       [u ''reccli-ts run -c \"lsp /recycle\"'', u ''reccli-ts run -c \"rm /recycle/sub/\"'']
   \<and> u ''/recycle/sub/'' \<noteq> u ''/recycle/sub''"
proof -
  have c: "lsp_recycle_command = u ''reccli-ts run -c \"lsp /recycle\"''"
          "rm_command (u ''/recycle/sub/'') = u ''reccli-ts run -c \"rm /recycle/sub/\"''"
    by (simp_all add: command_eval u_def)
  have h: "subprocess_run recycle_env_sub [] lsp_recycle_command = (0, Some (u ''sub/\<newline>''))"
    unfolding c by (simp add: recycle_env_sub_def table_env_def)
  have e: "parsed_entries (splitlines (u ''sub/\<newline>'')) = [u ''sub/'']"
    by (simp add: parsed_entries_def string_eval)
  have p: "u ''/recycle/'' @ u ''sub/'' = u ''/recycle/sub/''" by (simp add: u_def)
  note t = purge_recycle_never_recurses [OF h]
  have "commands (snd (clear_recycle recycle_env_sub [])) =
          commands (take (Suc 0) (snd (clear_recycle recycle_env_sub [])))
          @ commands (drop (Suc 0) (snd (clear_recycle recycle_env_sub [])))"
    by (metis append_take_drop_id commands_append)
  also have "\<dots> = [lsp_recycle_command, rm_command (u ''/recycle/sub/'')]"
    using t [THEN conjunct2, THEN conjunct1] t [THEN conjunct2, THEN conjunct2, THEN conjunct1]
    by (simp add: e p)
  finally show ?thesis using h unfolding c by (simp add: u_def)
qed

section \<open>Parsing a listing\<close>

lemma splitlines_from_plain:
  "\<not> list_ex is_linebreak s \<Longrightarrow>
     splitlines_from line s = (if line @ s = [] then [] else [line @ s])"
  by (induction line s rule: splitlines_from.induct) auto

lemma splitlines_from_break:
  "\<not> list_ex is_linebreak l1 \<Longrightarrow> is_linebreak b \<Longrightarrow>
   \<not> (b = 13 \<and> rest \<noteq> [] \<and> hd rest = 10) \<Longrightarrow>
     splitlines_from line (l1 @ b # rest) = (line @ l1) # splitlines_from [] rest"
proof (induction line l1 rule: splitlines_from.induct)
  case (1 line)
  then show ?case by (cases rest) auto
next
  case (2 line c)
  then show ?case by (cases rest) auto
next
  case (3 line c d cs)
  then show ?case by auto
qed

lemma splitlines_from_crlf:
  "\<not> list_ex is_linebreak l1 \<Longrightarrow>
     splitlines_from line (l1 @ 13 # 10 # rest) = (line @ l1) # splitlines_from [] rest"
proof (induction line l1 rule: splitlines_from.induct)
  case (1 line)
  then show ?case by (simp add: is_linebreak_def)
next
  case (2 line c)
  then show ?case by (simp add: is_linebreak_def)
next
  case (3 line c d cs)
  then show ?case by auto
qed

lemma splitlines_from_no_break:
  "l \<in> set (splitlines_from line s) \<Longrightarrow> \<not> list_ex is_linebreak line \<Longrightarrow>
     \<not> list_ex is_linebreak l"
  by (induction line s rule: splitlines_from.induct) (auto split: if_splits)

lemma concat_splitlines_from:
  "concat (splitlines_from line s) = line @ filter (\<lambda>c. \<not> is_linebreak c) s"
  by (induction line s rule: splitlines_from.induct) (auto simp: is_linebreak_def)

lemma process_items_for_each:
  "process_items d env r l items st =
     for_each (process_item d env r l) (parsed_entries items) st"
proof (induction items arbitrary: st)
  case Nil
  show ?case by simp
next
  case (Cons item items)
  show ?case
  proof (cases "strip item = []")
    case True
    then show ?thesis by (simp add: parsed_entries_Cons Cons.IH)
  next
    case False
    then show ?thesis
      by (simp add: parsed_entries_Cons Cons.IH Let_def split: prod.splits outcome.splits)
  qed
qed

lemma get_remote_files_ok:
  "subprocess_run env st (lsp_command p) = (0, Some out) \<Longrightarrow>
     get_remote_files env p st = (Inr (splitlines out), st @ [Run (lsp_command p)])"
  by (simp add: get_remote_files_def)


lemma get_remote_files_fails:
  "subprocess_run env st (lsp_command p) = (rc, Some out) \<Longrightarrow> rc \<noteq> 0 \<Longrightarrow>
     get_remote_files env p st =
       (Inr [], st @ [Run (lsp_command p),
                  Print (u ''Error retrieving files in '' @ p @ u '': '' @
                         str_CalledProcessError (lsp_command p) rc)])"
  by (simp add: get_remote_files_def)

text \<open>
  C3: when the listing command \<open>reccli-ts run -c "lsp \<dots>"\<close> returns a text with
  status 0, the traversal of a path is the loop body run over the parsed entry sequence
  of that text, in order, and that sequence is: the text split at the line boundaries (a
  boundary character, or CR LF as one), every line trimmed, the blank and
  whitespace-only lines left out.
\<close>

theorem listing_parsed_into_entries:
  assumes "subprocess_run env st (lsp_command p) = (0, Some out)"
  shows "process_remote_path (Suc d) env p l st =
           for_each (process_item d env p l) (parsed_entries (splitlines out))
             (st @ [Run (lsp_command p)])
       \<and> parsed_entries (splitlines out) =
           map strip (filter (\<lambda>line. \<not> list_all is_space line) (splitlines out))
       \<and> (\<forall>n \<in> set (parsed_entries (splitlines out)).
             n \<noteq> [] \<and> \<not> is_space (hd n) \<and> \<not> is_space (last n))
       \<and> (\<forall>line \<in> set (splitlines out). \<not> list_ex is_linebreak line)
       \<and> concat (splitlines out) = filter (\<lambda>c. \<not> is_linebreak c) out
       \<and> (\<forall>line b rest. \<not> list_ex is_linebreak line \<and> is_linebreak b \<and>
             \<not> (b = 13 \<and> rest \<noteq> [] \<and> hd rest = 10) \<longrightarrow>
             splitlines (line @ b # rest) = line # splitlines rest)
       \<and> (\<forall>line rest. \<not> list_ex is_linebreak line \<longrightarrow>
             splitlines (line @ 13 # 10 # rest) = line # splitlines rest)
       \<and> (\<forall>line. \<not> list_ex is_linebreak line \<longrightarrow>
             splitlines line = (if line = [] then [] else [line]))
       \<and> lsp_command p = u ''reccli-ts run -c \"lsp '' @ escape_shell_path p @ u ''\"''"
proof -
  have 1: "process_remote_path (Suc d) env p l st =
           for_each (process_item d env p l) (parsed_entries (splitlines out))
             (st @ [Run (lsp_command p)])"
    by (simp add: get_remote_files_ok [OF assms] process_items_for_each)
  have 2: "parsed_entries (splitlines out) =
           map strip (filter (\<lambda>line. \<not> list_all is_space line) (splitlines out))"
    by (rule parsed_entries_filter_map)
  have 3: "\<forall>n \<in> set (parsed_entries (splitlines out)).
             n \<noteq> [] \<and> \<not> is_space (hd n) \<and> \<not> is_space (last n)"
    using parsed_entries_trimmed strip_ends by metis
  have 4: "\<forall>line \<in> set (splitlines out). \<not> list_ex is_linebreak line"
    using splitlines_from_no_break [of _ "[]" out] by (auto simp: splitlines_def)
  have 5: "concat (splitlines out) = filter (\<lambda>c. \<not> is_linebreak c) out"
    by (simp add: splitlines_def concat_splitlines_from)
  have 6: "\<forall>line b rest. \<not> list_ex is_linebreak line \<and> is_linebreak b \<and>
             \<not> (b = 13 \<and> rest \<noteq> [] \<and> hd rest = 10) \<longrightarrow>
             splitlines (line @ b # rest) = line # splitlines rest"
    using splitlines_from_break [of _ _ _ "[]"] by (simp add: splitlines_def)
  have 7: "\<forall>line rest. \<not> list_ex is_linebreak line \<longrightarrow>
             splitlines (line @ 13 # 10 # rest) = line # splitlines rest"
    using splitlines_from_crlf [of _ "[]"] by (simp add: splitlines_def)
  have 8: "\<forall>line. \<not> list_ex is_linebreak line \<longrightarrow>
             splitlines line = (if line = [] then [] else [line])"
    using splitlines_from_plain [of _ "[]"] by (simp add: splitlines_def)
  have 9: "lsp_command p = u ''reccli-ts run -c \"lsp '' @ escape_shell_path p @ u ''\"''"
    by (simp add: lsp_command_def u_def)
  show ?thesis by (intro conjI) (rule 1 2 3 4 5 6 7 8 9)+
qed

theorem listing_parsed_into_entries_witness:
  "subprocess_run listing_env [] (u ''reccli-ts run -c \"lsp /cloud/download\"'') =
     (0, Some [32, 97, 46, 116, 120, 116, 9, 13, 10, 10, 32, 32, 13, 98, 32, 99, 10])
   \<and> process_remote_path (Suc 0) listing_env (u ''/cloud/download'') (u ''./download'') [] =
       for_each (process_item 0 listing_env (u ''/cloud/download'') (u ''./download''))
         [u ''a.txt'', u ''b c''] [Run (u ''reccli-ts run -c \"lsp /cloud/download\"'')]"
proof -
  have c: "lsp_command (u ''/cloud/download'') = u ''reccli-ts run -c \"lsp /cloud/download\"''"
    by (simp add: command_eval u_def)
  have h: "subprocess_run listing_env [] (lsp_command (u ''/cloud/download'')) =
     (0, Some [32, 97, 46, 116, 120, 116, 9, 13, 10, 10, 32, 32, 13, 98, 32, 99, 10])"
    unfolding c by (simp add: listing_env_def table_env_def)
  have e: "parsed_entries
             (splitlines [32, 97, 46, 116, 120, 116, 9, 13, 10, 10, 32, 32, 13, 98, 32, 99, 10]) =
           [u ''a.txt'', u ''b c'']"
    by (simp add: parsed_entries_def string_eval)
  from conjunct1 [OF listing_parsed_into_entries [OF h]] h show ?thesis
    unfolding e c by simp
qed

section \<open>A listing that fails\<close>

lemma get_remote_files_nonzero:
  assumes "fst (subprocess_run env st (lsp_command p)) \<noteq> 0"
    and "snd (subprocess_run env st (lsp_command p)) \<noteq> None"
  shows "get_remote_files env p st =
           (Inr [], st @ [Run (lsp_command p),
                  Print (u ''Error retrieving files in '' @ p @ u '': '' @
                         str_CalledProcessError (lsp_command p)
                           (fst (subprocess_run env st (lsp_command p))))])"
proof (cases "subprocess_run env st (lsp_command p)")
  case (Pair rc cap)
  with assms obtain out where "cap = Some out" "rc \<noteq> 0" by auto
  with Pair show ?thesis by (simp add: get_remote_files_def)
qed

lemma process_remote_path_listing_fails:
  assumes "fst (subprocess_run env st (lsp_command p)) \<noteq> 0"
    and "snd (subprocess_run env st (lsp_command p)) \<noteq> None"
  shows "process_remote_path (Suc d) env p l st =
           (Returned, st @ [Run (lsp_command p),
                  Print (u ''Error retrieving files in '' @ p @ u '': '' @
                         str_CalledProcessError (lsp_command p)
                           (fst (subprocess_run env st (lsp_command p))))])"
  by (simp add: get_remote_files_nonzero [OF assms])


lemma process_items_Cons_entry:
  "strip item \<noteq> [] \<Longrightarrow>
     process_items d env r l (item # items) st =
       (case process_item d env r l (strip item) st of
          (Returned, st1) \<Rightarrow> process_items d env r l items st1
        | (Raised e, st1) \<Rightarrow> (Raised e, st1))"
  by (simp add: Let_def)

lemma process_item_dir:
  "endswith_slash n \<Longrightarrow>
     process_item d env r l n st =
       (if os_makedirs env st (join l (rstrip_slash n))
        then process_remote_path d env (rstrip_slash (r @ [47] @ n)) (join l (rstrip_slash n))
               (st @ [Makedirs (join l (rstrip_slash n))])
        else (Raised (OSError (join l (rstrip_slash n))),
              st @ [Makedirs (join l (rstrip_slash n))]))"
  by (simp add: process_item.simps Let_def)

lemma process_item_file:
  "\<not> endswith_slash n \<Longrightarrow>
     process_item d env r l n st =
       (Returned, download_file env (r @ [47] @ n) (join l n) st)"
  by (simp add: process_item.simps Let_def)





section \<open>Mirroring a remote tree\<close>

text \<open>
  C7: the download script creates the local root, then traverses the remote root.  The
  traversal of a path lists it, by \<open>reccli-ts run -c "lsp \<dots>"\<close>, and handles the
  entries in order: for a directory entry it creates the local subdirectory and only then
  traverses the remote subdirectory into it; for a file entry it runs the download
  command \<open>reccli-ts run -c "download \<dots> \<dots>"\<close> on the escaped remote path of that file
  and its escaped path in the current local directory, and goes on whether the command
  succeeded or not.
\<close>

theorem download_tree_mirrors_entries:
  "(os_makedirs env [] download_local_path \<longrightarrow>
      download_main d env =
        process_remote_path d env download_remote_path download_local_path
          [Makedirs download_local_path])
   \<and> (subprocess_run env st (lsp_command p) = (0, Some out) \<longrightarrow>
      process_remote_path (Suc d) env p l st =
        for_each (process_item d env p l) (parsed_entries (splitlines out))
          (st @ [Run (lsp_command p)]))
   \<and> (endswith_slash n \<and> os_makedirs env st (join l (rstrip_slash n)) \<longrightarrow>
      process_item d env p l n st =
        process_remote_path d env (rstrip_slash (p @ [47] @ n)) (join l (rstrip_slash n))
          (st @ [Makedirs (join l (rstrip_slash n))]))
   \<and> (\<not> endswith_slash n \<longrightarrow>
      process_item d env p l n st =
        (Returned,
         st @ [Run (download_command (p @ [47] @ n) (join l n)),
               Print (if fst (subprocess_run env st (download_command (p @ [47] @ n) (join l n))) = 0
                      then u ''Downloaded: '' @ (p @ [47] @ n) @ u '' -> '' @ join l n
                      else u ''Error downloading '' @ (p @ [47] @ n) @ u '': '' @
                           str_CalledProcessError (download_command (p @ [47] @ n) (join l n))
                             (fst (subprocess_run env st
                                     (download_command (p @ [47] @ n) (join l n)))))]))
   \<and> lsp_command p = u ''reccli-ts run -c \"lsp '' @ escape_shell_path p @ u ''\"''
   \<and> (\<forall>r f. download_command r f =
         u ''reccli-ts run -c \"download '' @ escape_shell_path r @ u '' '' @
         escape_shell_path f @ u ''\"'')"
proof (intro conjI impI allI)
  assume "os_makedirs env [] download_local_path"
  then show "download_main d env =
        process_remote_path d env download_remote_path download_local_path
          [Makedirs download_local_path]"
    by (simp add: download_main_def)
next
  assume a: "subprocess_run env st (lsp_command p) = (0, Some out)"
  show "process_remote_path (Suc d) env p l st =
        for_each (process_item d env p l) (parsed_entries (splitlines out))
          (st @ [Run (lsp_command p)])"
    by (simp add: get_remote_files_ok [OF a] process_items_for_each)
next
  assume "endswith_slash n \<and> os_makedirs env st (join l (rstrip_slash n))"
  then show "process_item d env p l n st =
        process_remote_path d env (rstrip_slash (p @ [47] @ n)) (join l (rstrip_slash n))
          (st @ [Makedirs (join l (rstrip_slash n))])"
    by (simp add: process_item_dir)
next
  assume "\<not> endswith_slash n"
  then show "process_item d env p l n st =
        (Returned,
         st @ [Run (download_command (p @ [47] @ n) (join l n)),
               Print (if fst (subprocess_run env st (download_command (p @ [47] @ n) (join l n))) = 0
                      then u ''Downloaded: '' @ (p @ [47] @ n) @ u '' -> '' @ join l n
                      else u ''Error downloading '' @ (p @ [47] @ n) @ u '': '' @
                           str_CalledProcessError (download_command (p @ [47] @ n) (join l n))
                             (fst (subprocess_run env st
                                     (download_command (p @ [47] @ n) (join l n)))))])"
    by (simp add: process_item_file download_file_def Let_def)
next
  show "lsp_command p = u ''reccli-ts run -c \"lsp '' @ escape_shell_path p @ u ''\"''"
    by (simp add: lsp_command_def u_def)
next
  fix r f
  show "download_command r f =
         u ''reccli-ts run -c \"download '' @ escape_shell_path r @ u '' '' @
         escape_shell_path f @ u ''\"''"
    by (simp add: download_command_def u_def)
qed

theorem download_tree_mirrors_entries_witness:
  "os_makedirs download_tree_env [] download_local_path
   \<and> download_main (Suc (Suc 0)) download_tree_env =
       (Returned,
        [Makedirs (u ''./download''),
         Run (u ''reccli-ts run -c \"lsp /cloud/download\"''),
         Run (u ''reccli-ts run -c \"download /cloud/download/a.txt ./download/a.txt\"''),
         Print (u ''Downloaded: /cloud/download/a.txt -> ./download/a.txt''),
         Makedirs (u ''./download/sub''),
         Run (u ''reccli-ts run -c \"lsp /cloud/download/sub\"''),
         Run (u ''reccli-ts run -c \"download /cloud/download/sub/b.txt ./download/sub/b.txt\"''),
         Print (u ''Downloaded: /cloud/download/sub/b.txt -> ./download/sub/b.txt'')])"
proof -
  let ?E = download_tree_env
  let ?R = "u ''/cloud/download''"
  let ?L = "u ''./download''"
  have c: "lsp_command (u ''/cloud/download'') = u ''reccli-ts run -c \"lsp /cloud/download\"''"
          "lsp_command (u ''/cloud/download/sub'') = u ''reccli-ts run -c \"lsp /cloud/download/sub\"''"
          "download_command (u ''/cloud/download/a.txt'') (u ''./download/a.txt'') =
             u ''reccli-ts run -c \"download /cloud/download/a.txt ./download/a.txt\"''"
          "download_command (u ''/cloud/download/sub/b.txt'') (u ''./download/sub/b.txt'') =
             u ''reccli-ts run -c \"download /cloud/download/sub/b.txt ./download/sub/b.txt\"''"
    by (simp_all add: command_eval u_def)
  note A = download_tree_mirrors_entries [THEN conjunct1, rule_format]
  note B = download_tree_mirrors_entries [THEN conjunct2, THEN conjunct1, rule_format]
  note C = download_tree_mirrors_entries
             [THEN conjunct2, THEN conjunct2, THEN conjunct1, rule_format]
  note D = download_tree_mirrors_entries
             [THEN conjunct2, THEN conjunct2, THEN conjunct2, THEN conjunct1, rule_format]
  have mk: "os_makedirs ?E h q" for h q
    by (simp add: download_tree_env_def table_env_def)
  have g1: "subprocess_run ?E h (lsp_command ?R) = (0, Some (u ''a.txt\<newline>sub/\<newline>''))" for h
    unfolding c by (simp add: download_tree_env_def table_env_def)
  have g2: "subprocess_run ?E h (lsp_command (u ''/cloud/download/sub'')) =
              (0, Some (u ''b.txt\<newline>''))"
    for h
    unfolding c by (simp add: download_tree_env_def table_env_def u_def)
  have d1: "fst (subprocess_run ?E h
              (download_command (u ''/cloud/download/a.txt'') (u ''./download/a.txt''))) = 0" for h
    unfolding c by (simp add: download_tree_env_def table_env_def u_def)
  have d2: "fst (subprocess_run ?E h
              (download_command (u ''/cloud/download/sub/b.txt'') (u ''./download/sub/b.txt''))) = 0"
    for h
    unfolding c by (simp add: download_tree_env_def table_env_def u_def)
  have e1: "parsed_entries (splitlines (u ''a.txt\<newline>sub/\<newline>'')) = [u ''a.txt'', u ''sub/'']"
    by (simp add: parsed_entries_def string_eval)
  have e2: "parsed_entries (splitlines (u ''b.txt\<newline>'')) = [u ''b.txt'']"
    by (simp add: parsed_entries_def string_eval)
  have k: "\<not> endswith_slash (u ''a.txt'')" "\<not> endswith_slash (u ''b.txt'')"
          "endswith_slash (u ''sub/'')"
    by (simp_all add: string_eval)
  have p: "?R @ [47] @ u ''a.txt'' = u ''/cloud/download/a.txt''"
          "join ?L (u ''a.txt'') = u ''./download/a.txt''"
          "rstrip_slash (?R @ [47] @ u ''sub/'') = u ''/cloud/download/sub''"
          "join ?L (rstrip_slash (u ''sub/'')) = u ''./download/sub''"
          "u ''/cloud/download/sub'' @ [47] @ u ''b.txt'' = u ''/cloud/download/sub/b.txt''"
          "join (u ''./download/sub'') (u ''b.txt'') = u ''./download/sub/b.txt''"
    by (simp_all add: string_eval)
  have m: "u ''Downloaded: '' @ u ''/cloud/download/a.txt'' @ u '' -> '' @ u ''./download/a.txt''
             = u ''Downloaded: /cloud/download/a.txt -> ./download/a.txt''"
          "u ''Downloaded: '' @ u ''/cloud/download/sub/b.txt'' @ u '' -> '' @
             u ''./download/sub/b.txt''
             = u ''Downloaded: /cloud/download/sub/b.txt -> ./download/sub/b.txt''"
    by (simp_all add: u_def)
  have fa: "process_item (Suc 0) ?E ?R ?L (u ''a.txt'') st =
              (Returned, st @ [Run (download_command (u ''/cloud/download/a.txt'') (u ''./download/a.txt'')),
                 Print (u ''Downloaded: /cloud/download/a.txt -> ./download/a.txt'')])" for st
    using D [of "u ''a.txt''" "Suc 0" ?E ?R ?L st, OF k(1)] unfolding p d1 by (simp add: m)
  have fb: "process_item 0 ?E (u ''/cloud/download/sub'') (u ''./download/sub'') (u ''b.txt'') st =
              (Returned, st @ [Run (download_command (u ''/cloud/download/sub/b.txt'') (u ''./download/sub/b.txt'')),
                 Print (u ''Downloaded: /cloud/download/sub/b.txt -> ./download/sub/b.txt'')])" for st
    using D [of "u ''b.txt''" 0 ?E "u ''/cloud/download/sub''" "u ''./download/sub''" st, OF k(2)]
    unfolding p d2 by (simp add: m)
  have sub: "process_remote_path (Suc 0) ?E (u ''/cloud/download/sub'') (u ''./download/sub'') st =
               (Returned, st @ [Run (lsp_command (u ''/cloud/download/sub'')),
                  Run (download_command (u ''/cloud/download/sub/b.txt'') (u ''./download/sub/b.txt'')),
                  Print (u ''Downloaded: /cloud/download/sub/b.txt -> ./download/sub/b.txt'')])" for st
    unfolding B [OF g2] e2 by (simp add: fb)
  have fs: "process_item (Suc 0) ?E ?R ?L (u ''sub/'') st =
              (Returned, st @ [Makedirs (u ''./download/sub''),
                  Run (lsp_command (u ''/cloud/download/sub'')),
                  Run (download_command (u ''/cloud/download/sub/b.txt'') (u ''./download/sub/b.txt'')),
                  Print (u ''Downloaded: /cloud/download/sub/b.txt -> ./download/sub/b.txt'')])" for st
    using C [of "u ''sub/''" ?E st ?L "Suc 0" ?R] k(3) mk unfolding p
    by (simp add: sub del: process_remote_path.simps)
  have "download_main (Suc (Suc 0)) ?E =
          process_remote_path (Suc (Suc 0)) ?E download_remote_path download_local_path
            [Makedirs download_local_path]"
    by (rule A) (rule mk)
  also have "\<dots> = for_each (process_item (Suc 0) ?E ?R ?L) [u ''a.txt'', u ''sub/'']
                       ([Makedirs ?L] @ [Run (lsp_command ?R)])"
    unfolding download_remote_path_def download_local_path_def B [OF g1] e1 ..
  also have "\<dots> = (Returned,
        [Makedirs (u ''./download''),
         Run (lsp_command (u ''/cloud/download'')),
         Run (download_command (u ''/cloud/download/a.txt'') (u ''./download/a.txt'')),
         Print (u ''Downloaded: /cloud/download/a.txt -> ./download/a.txt''),
         Makedirs (u ''./download/sub''),
         Run (lsp_command (u ''/cloud/download/sub'')),
         Run (download_command (u ''/cloud/download/sub/b.txt'') (u ''./download/sub/b.txt'')),
         Print (u ''Downloaded: /cloud/download/sub/b.txt -> ./download/sub/b.txt'')])"
    by (simp add: fa fs)
  finally show ?thesis using mk unfolding c by simp
qed

section \<open>The directory marker\<close>

lemma rstrip_slash_not_endswith: "\<not> endswith_slash (rstrip_slash s)"
proof
  assume a: "endswith_slash (rstrip_slash s)"
  let ?d = "dropWhile (\<lambda>c. c = 47) (rev s)"
  from a have n: "?d \<noteq> []" by (simp add: endswith_slash_def rstrip_slash_def)
  then have "hd ?d \<noteq> 47" using hd_dropWhile [of "\<lambda>c. c = 47" "rev s"] by simp
  moreover from a n have "hd ?d = 47"
    by (simp add: endswith_slash_def rstrip_slash_def last_rev)
  ultimately show False by simp
qed

lemma takeWhile_eq_replicate:
  "takeWhile (\<lambda>c. c = a) xs = replicate (length (takeWhile (\<lambda>c. c = a) xs)) a"
  by (induction xs) auto

lemma rstrip_slash_decomp:
  "s = rstrip_slash s @ replicate (length (takeWhile (\<lambda>c. c = 47) (rev s))) 47"
proof -
  have "rev s = takeWhile (\<lambda>c. c = 47) (rev s) @ dropWhile (\<lambda>c. c = 47) (rev s)" by simp
  then have "s = rev (dropWhile (\<lambda>c. c = 47) (rev s)) @ rev (takeWhile (\<lambda>c. c = 47) (rev s))"
    by (metis rev_append rev_rev_ident)
  moreover have "rev (takeWhile (\<lambda>c. c = 47) (rev s)) =
                   replicate (length (takeWhile (\<lambda>c. c = 47) (rev s))) 47"
    using takeWhile_eq_replicate [of 47 "rev s"] by (metis rev_replicate)
  ultimately show ?thesis by (simp add: rstrip_slash_def)
qed

lemma rstrip_slash_snoc: "\<not> endswith_slash m \<Longrightarrow> rstrip_slash (m @ [47]) = m"
  by (cases "rev m") (auto simp: rstrip_slash_def endswith_slash_def last_rev)

lemma endswith_slash_takeWhile:
  "endswith_slash n \<Longrightarrow> 0 < length (takeWhile (\<lambda>c. c = 47) (rev n))"
  by (cases "rev n") (auto simp: endswith_slash_def last_rev)

text \<open>
  C2 as the code has it: an entry whose trimmed name ends in a slash takes the directory
  branch, and both the local directory name and the remote subpath are formed with
  \<open>rstrip('/')\<close>, which removes every trailing slash: none is left at the end, the name
  is what remains followed by the one or more slashes removed, and for a name with
  exactly one trailing slash exactly that one goes.
\<close>

theorem directory_entry_strips_trailing_separators:
  "endswith_slash n \<longrightarrow>
     process_item d env p l n st =
       (if os_makedirs env st (join l (rstrip_slash n))
        then process_remote_path d env (rstrip_slash (p @ [47] @ n)) (join l (rstrip_slash n))
               (st @ [Makedirs (join l (rstrip_slash n))])
        else (Raised (OSError (join l (rstrip_slash n))),
              st @ [Makedirs (join l (rstrip_slash n))]))
     \<and> \<not> endswith_slash (rstrip_slash n)
     \<and> \<not> endswith_slash (rstrip_slash (p @ [47] @ n))
     \<and> 0 < length (takeWhile (\<lambda>c. c = 47) (rev n))
     \<and> n = rstrip_slash n @ replicate (length (takeWhile (\<lambda>c. c = 47) (rev n))) 47
     \<and> (\<forall>m. \<not> endswith_slash m \<longrightarrow>
           rstrip_slash (m @ [47]) = m \<and>
           (m \<noteq> [] \<longrightarrow> rstrip_slash (p @ [47] @ m @ [47]) = p @ [47] @ m))"
proof
  assume a: "endswith_slash n"
  have 1: "process_item d env p l n st =
       (if os_makedirs env st (join l (rstrip_slash n))
        then process_remote_path d env (rstrip_slash (p @ [47] @ n)) (join l (rstrip_slash n))
               (st @ [Makedirs (join l (rstrip_slash n))])
        else (Raised (OSError (join l (rstrip_slash n))),
              st @ [Makedirs (join l (rstrip_slash n))]))"
    by (rule process_item_dir [OF a])
  have 2: "\<forall>m. \<not> endswith_slash m \<longrightarrow>
           rstrip_slash (m @ [47]) = m \<and>
           (m \<noteq> [] \<longrightarrow> rstrip_slash (p @ [47] @ m @ [47]) = p @ [47] @ m)"
  proof (intro allI impI conjI)
    fix m :: ustr
    assume m: "\<not> endswith_slash m"
    show "rstrip_slash (m @ [47]) = m" by (rule rstrip_slash_snoc [OF m])
    assume "m \<noteq> []"
    with m have "\<not> endswith_slash (p @ [47] @ m)" by (simp add: endswith_slash_def)
    from rstrip_slash_snoc [OF this] show "rstrip_slash (p @ [47] @ m @ [47]) = p @ [47] @ m"
      by simp
  qed
  show "process_item d env p l n st =
       (if os_makedirs env st (join l (rstrip_slash n))
        then process_remote_path d env (rstrip_slash (p @ [47] @ n)) (join l (rstrip_slash n))
               (st @ [Makedirs (join l (rstrip_slash n))])
        else (Raised (OSError (join l (rstrip_slash n))),
              st @ [Makedirs (join l (rstrip_slash n))]))
     \<and> \<not> endswith_slash (rstrip_slash n)
     \<and> \<not> endswith_slash (rstrip_slash (p @ [47] @ n))
     \<and> 0 < length (takeWhile (\<lambda>c. c = 47) (rev n))
     \<and> n = rstrip_slash n @ replicate (length (takeWhile (\<lambda>c. c = 47) (rev n))) 47
     \<and> (\<forall>m. \<not> endswith_slash m \<longrightarrow>
           rstrip_slash (m @ [47]) = m \<and>
           (m \<noteq> [] \<longrightarrow> rstrip_slash (p @ [47] @ m @ [47]) = p @ [47] @ m))"
    using 1 2 rstrip_slash_not_endswith endswith_slash_takeWhile [OF a] rstrip_slash_decomp [of n]
    by blast
qed

lemma msg_listing_sub_cmd:
  "u ''Error retrieving files in '' @ u ''/cloud/download/sub'' @ u '': '' @
     str_CalledProcessError (lsp_command (u ''/cloud/download/sub'')) 1 =
   u ''Error retrieving files in /cloud/download/sub: Command 'reccli-ts run -c \"lsp /cloud/download/sub\"' returned non-zero exit status 1.''"
  by (simp add: command_eval u_def)

lemma table_env_empty:
  "os_makedirs (table_env [] []) h q"
  "fst (subprocess_run (table_env [] []) h c) = 1"
  "snd (subprocess_run (table_env [] []) h c) = Some []"
  by (simp_all add: table_env_def)

theorem directory_entry_strips_trailing_separators_witness:
  "endswith_slash (u ''sub/'')
   \<and> process_item (Suc 0) (table_env [] []) (u ''/cloud/download'') (u ''./download'') (u ''sub/'') [] =
       (Returned,
        [Makedirs (u ''./download/sub''),
         Run (lsp_command (u ''/cloud/download/sub'')),
         Print (u ''Error retrieving files in /cloud/download/sub: Command 'reccli-ts run -c \"lsp /cloud/download/sub\"' returned non-zero exit status 1.'')])"
proof -
  have k: "endswith_slash (u ''sub/'')" by (simp add: string_eval)
  have p: "rstrip_slash (u ''/cloud/download'' @ [47] @ u ''sub/'') = u ''/cloud/download/sub''"
          "join (u ''./download'') (rstrip_slash (u ''sub/'')) = u ''./download/sub''"
    by (simp_all add: string_eval)
  have f: "fst (subprocess_run (table_env [] []) h c) \<noteq> 0" for h c
    by (simp add: table_env_empty)
  have g: "snd (subprocess_run (table_env [] []) h c) \<noteq> None" for h c
    by (simp add: table_env_empty)
  from directory_entry_strips_trailing_separators
         [where n = "u ''sub/''" and d = "Suc 0" and env = "table_env [] []" and st = "[]"
            and p = "u ''/cloud/download''" and l = "u ''./download''", rule_format, OF k,
          THEN conjunct1]
  have "process_item (Suc 0) (table_env [] []) (u ''/cloud/download'') (u ''./download'') (u ''sub/'') [] =
          process_remote_path (Suc 0) (table_env [] []) (u ''/cloud/download/sub'')
            (u ''./download/sub'') [Makedirs (u ''./download/sub'')]"
    unfolding p by (simp add: table_env_empty del: process_remote_path.simps)
  also have "\<dots> = (Returned,
        [Makedirs (u ''./download/sub''),
         Run (lsp_command (u ''/cloud/download/sub'')),
         Print (u ''Error retrieving files in /cloud/download/sub: Command 'reccli-ts run -c \"lsp /cloud/download/sub\"' returned non-zero exit status 1.'')])"
    unfolding process_remote_path_listing_fails [OF f g] table_env_empty msg_listing_sub_cmd by simp
  finally show ?thesis using k by simp
qed

text \<open>
  C2 as stated fails on a name with two trailing slashes: for the entry \<open>sub//\<close> the
  local directory is \<open>./download/sub\<close> and the remote subpath \<open>/cloud/download/sub\<close>,
  where removing one slash would have given \<open>./download/sub/\<close> and
  \<open>/cloud/download/sub/\<close>.
\<close>

theorem strips_exactly_one_separator_counterexample:
  "endswith_slash (u ''sub//'')
   \<and> process_item (Suc 0) (table_env [] []) (u ''/cloud/download'') (u ''./download'') (u ''sub//'') [] =
       (Returned,
        [Makedirs (u ''./download/sub''),
         Run (lsp_command (u ''/cloud/download/sub'')),
         Print (u ''Error retrieving files in /cloud/download/sub: Command 'reccli-ts run -c \"lsp /cloud/download/sub\"' returned non-zero exit status 1.'')])
   \<and> join (u ''./download'') (butlast (u ''sub//'')) = u ''./download/sub/''
   \<and> butlast (u ''/cloud/download'' @ [47] @ u ''sub//'') = u ''/cloud/download/sub/''
   \<and> u ''./download/sub'' \<noteq> u ''./download/sub/''
   \<and> u ''/cloud/download/sub'' \<noteq> u ''/cloud/download/sub/''"
proof -
  have k: "endswith_slash (u ''sub//'')" by (simp add: string_eval)
  have p: "rstrip_slash (u ''/cloud/download'' @ [47] @ u ''sub//'') = u ''/cloud/download/sub''"
          "join (u ''./download'') (rstrip_slash (u ''sub//'')) = u ''./download/sub''"
    by (simp_all add: string_eval)
  have f: "fst (subprocess_run (table_env [] []) h c) \<noteq> 0" for h c
    by (simp add: table_env_empty)
  have g: "snd (subprocess_run (table_env [] []) h c) \<noteq> None" for h c
    by (simp add: table_env_empty)
  have "process_item (Suc 0) (table_env [] []) (u ''/cloud/download'') (u ''./download'') (u ''sub//'') [] =
          process_remote_path (Suc 0) (table_env [] []) (u ''/cloud/download/sub'')
            (u ''./download/sub'') [Makedirs (u ''./download/sub'')]"
    unfolding process_item_dir [OF k] p by (simp add: table_env_empty del: process_remote_path.simps)
  also have "\<dots> = (Returned,
        [Makedirs (u ''./download/sub''),
         Run (lsp_command (u ''/cloud/download/sub'')),
         Print (u ''Error retrieving files in /cloud/download/sub: Command 'reccli-ts run -c \"lsp /cloud/download/sub\"' returned non-zero exit status 1.'')])"
    unfolding process_remote_path_listing_fails [OF f g] table_env_empty msg_listing_sub_cmd by simp
  finally have 1: "process_item (Suc 0) (table_env [] []) (u ''/cloud/download'') (u ''./download'') (u ''sub//'') [] =
       (Returned,
        [Makedirs (u ''./download/sub''),
         Run (lsp_command (u ''/cloud/download/sub'')),
         Print (u ''Error retrieving files in /cloud/download/sub: Command 'reccli-ts run -c \"lsp /cloud/download/sub\"' returned non-zero exit status 1.'')])" .
  have 2: "join (u ''./download'') (butlast (u ''sub//'')) = u ''./download/sub/''"
          "butlast (u ''/cloud/download'' @ [47] @ u ''sub//'') = u ''/cloud/download/sub/''"
          "u ''./download/sub'' \<noteq> u ''./download/sub/''"
          "u ''/cloud/download/sub'' \<noteq> u ''/cloud/download/sub/''"
    by (simp_all add: string_eval)
  from k 1 2 show ?thesis by blast
qed

section \<open>Ensuring a remote directory\<close>


lemma remote_path_exists_decoded:
  "snd (subprocess_run env st (lsp_command (dirname (rstrip_slash p)))) = Some out \<Longrightarrow>
     remote_path_exists env p st =
       (Inr (fst (subprocess_run env st (lsp_command (dirname (rstrip_slash p)))) = 0 \<and>
             basename (rstrip_slash p) @ [47] \<in> set (map strip (splitlines out))),
        st @ [Run (lsp_command (dirname (rstrip_slash p)))])"
  by (cases "subprocess_run env st (lsp_command (dirname (rstrip_slash p)))")
     (auto simp: remote_path_exists_def Let_def list_ex_iff image_iff intro: sym)


lemma ensure_remote_path_decoded:
  "snd (subprocess_run env st (lsp_command (dirname (rstrip_slash p)))) = Some out \<Longrightarrow>
     ensure_remote_path env p st =
       (Returned,
        if fst (subprocess_run env st (lsp_command (dirname (rstrip_slash p)))) = 0 \<and>
           basename (rstrip_slash p) @ [47] \<in> set (map strip (splitlines out))
        then st @ [Run (lsp_command (dirname (rstrip_slash p)))]
        else st @ [Run (lsp_command (dirname (rstrip_slash p))), Run (mkdir_command p),
               Print (if fst (subprocess_run env
                                (st @ [Run (lsp_command (dirname (rstrip_slash p)))])
                                (mkdir_command p)) = 0
                      then u ''Created remote directory: '' @ p
                      else u ''Error creating directory '' @ p @ u '': '' @
                           str_CalledProcessError (mkdir_command p)
                             (fst (subprocess_run env
                                     (st @ [Run (lsp_command (dirname (rstrip_slash p)))])
                                     (mkdir_command p))))])"
  by (simp add: ensure_remote_path_def remote_path_exists_decoded Let_def)


lemma upload_file_returned:
  "ensure_remote_path env (dirname rf) st = (Returned, st1) \<Longrightarrow>
     upload_file env lf rf st =
       (Returned,
        st1 @ [Run (upload_command lf (dirname rf)),
               Print (if fst (subprocess_run env st1 (upload_command lf (dirname rf))) = 0
                      then u ''Uploaded: '' @ lf @ u '' -> '' @ rf
                      else u ''Error uploading '' @ lf @ u '': '' @
                           str_CalledProcessError (upload_command lf (dirname rf))
                             (fst (subprocess_run env st1 (upload_command lf (dirname rf)))))])"
  by (simp add: upload_file_def Let_def)

lemma upload_file_raised:
  "ensure_remote_path env (dirname rf) st = (Raised e, st1) \<Longrightarrow>
     upload_file env lf rf st = (Raised e, st1)"
  by (simp add: upload_file_def Let_def)



lemma upload_paths:
  "dirname (rstrip_slash (u ''/cloud/upload'')) = u ''/cloud''"
  "basename (rstrip_slash (u ''/cloud/upload'')) = u ''upload''"
  "dirname (rstrip_slash (u ''/cloud/upload/new'')) = u ''/cloud/upload''"
  "basename (rstrip_slash (u ''/cloud/upload/new'')) = u ''new''"
  "dirname (rstrip_slash (u ''/cloud/upload/gone'')) = u ''/cloud/upload''"
  "basename (u ''/cloud/upload'') = u ''upload''" "dirname (u ''/cloud/upload'') = u ''/cloud''"
  "\<not> endswith_slash (u ''/cloud/upload'')"
  by (simp_all add: string_eval)



section \<open>Failures during the upload\<close>




lemma process_local_path_raises:
  assumes "\<forall>h. os_listdir env h l = None"
  shows "fst (process_local_path (Suc d) env l r st) \<noteq> Returned"
proof (cases "ensure_remote_path env r st")
  case (Pair out st1)
  show ?thesis
  proof (cases out)
    case Returned
    with Pair assms show ?thesis by simp
  next
    case (Raised e)
    with Pair show ?thesis by simp
  qed
qed

text \<open>
  C10: \<open>process_local_path\<close> calls \<open>os.listdir\<close> outside any \<open>try\<close>.  Where it raises,
  the call ends with that exception right after the remote directory was ensured; when
  that happens in a subdirectory, the loop of the parent ends with the same exception and
  the entries after it are never handled.  A call on a directory that cannot be listed
  never returns normally.  A file entry, in contrast, does not end the loop when its
  remote commands fail: \<open>upload_file\<close> prints the outcome of its command and the loop
  goes on.
\<close>

theorem local_listing_failure_aborts_upload:
  "(ensure_remote_path env r st = (Returned, sx) \<and> os_listdir env sx l = None \<longrightarrow>
      process_local_path (Suc d) env l r st = (Raised (OSError l), sx @ [Listdir l]))
   \<and> ((\<forall>h. os_listdir env h l = None) \<longrightarrow>
      fst (process_local_path (Suc d) env l r st) \<noteq> Returned)
   \<and> (os_path_isdir env st (join l item) \<and>
      ensure_remote_path env (r @ [47] @ item) (st @ [Isdir (join l item)]) = (Returned, sx) \<and>
      ensure_remote_path env (r @ [47] @ item) sx = (Returned, sy) \<and>
      os_listdir env sy (join l item) = None \<longrightarrow>
      process_local_items (Suc d) env l r (item # items) st =
        (Raised (OSError (join l item)), sy @ [Listdir (join l item)]))
   \<and> (\<not> os_path_isdir env st (join l item) \<and>
      upload_file env (join l item) (r @ [47] @ item) (st @ [Isdir (join l item)]) =
        (Returned, sx) \<longrightarrow>
      process_local_items d env l r (item # items) st =
        process_local_items d env l r items sx)
   \<and> (ensure_remote_path env (dirname rf) st = (Returned, sx) \<longrightarrow>
      upload_file env lf rf st =
        (Returned,
         sx @ [Run (upload_command lf (dirname rf)),
                Print (if fst (subprocess_run env sx (upload_command lf (dirname rf))) = 0
                       then u ''Uploaded: '' @ lf @ u '' -> '' @ rf
                       else u ''Error uploading '' @ lf @ u '': '' @
                            str_CalledProcessError (upload_command lf (dirname rf))
                              (fst (subprocess_run env sx (upload_command lf (dirname rf)))))]))
   \<and> upload_command lf (dirname rf) =
       u ''reccli-ts run -c \"upload '' @ escape_shell_path lf @ u '' '' @
       escape_shell_path (dirname rf) @ u ''\"''"
proof (intro conjI impI)
  assume "ensure_remote_path env r st = (Returned, sx) \<and> os_listdir env sx l = None"
  then show "process_local_path (Suc d) env l r st = (Raised (OSError l), sx @ [Listdir l])"
    by simp
next
  assume "\<forall>h. os_listdir env h l = None"
  then show "fst (process_local_path (Suc d) env l r st) \<noteq> Returned"
    by (rule process_local_path_raises)
next
  assume "os_path_isdir env st (join l item) \<and>
      ensure_remote_path env (r @ [47] @ item) (st @ [Isdir (join l item)]) = (Returned, sx) \<and>
      ensure_remote_path env (r @ [47] @ item) sx = (Returned, sy) \<and>
      os_listdir env sy (join l item) = None"
  then show "process_local_items (Suc d) env l r (item # items) st =
        (Raised (OSError (join l item)), sy @ [Listdir (join l item)])"
    by (simp add: Let_def)
next
  assume "\<not> os_path_isdir env st (join l item) \<and>
      upload_file env (join l item) (r @ [47] @ item) (st @ [Isdir (join l item)]) =
        (Returned, sx)"
  then show "process_local_items d env l r (item # items) st =
        process_local_items d env l r items sx"
    by (simp add: Let_def)
next
  assume a: "ensure_remote_path env (dirname rf) st = (Returned, sx)"
  show "upload_file env lf rf st =
        (Returned,
         sx @ [Run (upload_command lf (dirname rf)),
                Print (if fst (subprocess_run env sx (upload_command lf (dirname rf))) = 0
                       then u ''Uploaded: '' @ lf @ u '' -> '' @ rf
                       else u ''Error uploading '' @ lf @ u '': '' @
                            str_CalledProcessError (upload_command lf (dirname rf))
                              (fst (subprocess_run env sx (upload_command lf (dirname rf)))))])"
    by (rule upload_file_returned [OF a])
next
  show "upload_command lf (dirname rf) =
       u ''reccli-ts run -c \"upload '' @ escape_shell_path lf @ u '' '' @
       escape_shell_path (dirname rf) @ u ''\"''"
    by (simp add: upload_command_def u_def)
qed

theorem local_listing_failure_aborts_upload_witness:
  "os_path_isdir unreadable_env [] (join (u ''./upload'') (u ''gone''))
   \<and> os_listdir unreadable_env [] (join (u ''./upload'') (u ''gone'')) = None
   \<and> fst (upload_main (Suc (Suc 0)) unreadable_env) = Raised (OSError (u ''./upload/gone''))
   \<and> commands (snd (upload_main (Suc (Suc 0)) unreadable_env)) =
       [u ''reccli-ts run -c \"lsp /cloud\"'', u ''reccli-ts run -c \"mkdir /cloud/upload\"'',
        u ''reccli-ts run -c \"lsp /cloud\"'', u ''reccli-ts run -c \"mkdir /cloud/upload\"'',
        u ''reccli-ts run -c \"upload ./upload/a.txt /cloud/upload\"'',
        u ''reccli-ts run -c \"lsp /cloud/upload\"'', u ''reccli-ts run -c \"mkdir /cloud/upload/gone\"'',
        u ''reccli-ts run -c \"lsp /cloud/upload\"'', u ''reccli-ts run -c \"mkdir /cloud/upload/gone\"'']"
proof -
  let ?E = unreadable_env
  let ?L = "u ''./upload''"
  let ?R = "u ''/cloud/upload''"
  note T = local_listing_failure_aborts_upload
  have c: "lsp_command (u ''/cloud'') = u ''reccli-ts run -c \"lsp /cloud\"''"
          "lsp_command (u ''/cloud/upload'') = u ''reccli-ts run -c \"lsp /cloud/upload\"''"
          "mkdir_command (u ''/cloud/upload'') = u ''reccli-ts run -c \"mkdir /cloud/upload\"''"
          "mkdir_command (u ''/cloud/upload/gone'') = u ''reccli-ts run -c \"mkdir /cloud/upload/gone\"''"
          "upload_command (u ''./upload/a.txt'') (u ''/cloud/upload'') =
             u ''reccli-ts run -c \"upload ./upload/a.txt /cloud/upload\"''"
    by (simp_all add: command_eval u_def)
  note p = upload_paths
  have j: "join ?L (u ''a.txt'') = u ''./upload/a.txt''" "join ?L (u ''gone'') = u ''./upload/gone''"
          "?R @ [47] @ u ''a.txt'' = u ''/cloud/upload/a.txt''"
          "?R @ [47] @ u ''gone'' = u ''/cloud/upload/gone''"
          "dirname (u ''/cloud/upload/a.txt'') = u ''/cloud/upload''"
    by (simp_all add: string_eval)
  have i: "\<not> os_path_isdir ?E h (u ''./upload/a.txt'')" "os_path_isdir ?E h (u ''./upload/gone'')"
    for h
    by (simp_all add: unreadable_env_def u_def)
  have ld: "os_listdir ?E h ?L = Some [u ''a.txt'', u ''gone'', u ''z.txt'']"
           "os_listdir ?E h (u ''./upload/gone'') = None" for h
    by (simp_all add: unreadable_env_def u_def)
  have ens: "\<exists>s. ensure_remote_path ?E q st = (Returned, s) \<and>
                 commands s = commands st @ [lsp_command (dirname (rstrip_slash q)), mkdir_command q]"
    for q st
  proof -
    have "snd (subprocess_run ?E st (lsp_command (dirname (rstrip_slash q)))) = Some []"
         "fst (subprocess_run ?E st (lsp_command (dirname (rstrip_slash q)))) = 1"
      by (simp_all add: unreadable_env_def)
    then show ?thesis by (simp add: ensure_remote_path_decoded [where out = "[]"])
  qed
  obtain sa where sa: "ensure_remote_path ?E ?R [] = (Returned, sa)"
    and csa: "commands sa = [lsp_command (u ''/cloud''), mkdir_command ?R]"
    using ens [of ?R "[]"] unfolding p by auto
  let ?st0 = "sa @ [Listdir ?L]"
  obtain sp where sp: "ensure_remote_path ?E ?R (?st0 @ [Isdir (u ''./upload/a.txt'')]) =
                         (Returned, sp)"
    and csp: "commands sp = commands sa @ [lsp_command (u ''/cloud''), mkdir_command ?R]"
    using ens [of ?R "?st0 @ [Isdir (u ''./upload/a.txt'')]"] unfolding p by auto
  let ?st1 = "sp @ [Run (upload_command (u ''./upload/a.txt'') ?R),
                Print (if fst (subprocess_run ?E sp (upload_command (u ''./upload/a.txt'') ?R)) = 0
                       then u ''Uploaded: '' @ u ''./upload/a.txt'' @ u '' -> '' @
                            u ''/cloud/upload/a.txt''
                       else u ''Error uploading '' @ u ''./upload/a.txt'' @ u '': '' @
                            str_CalledProcessError (upload_command (u ''./upload/a.txt'') ?R)
                              (fst (subprocess_run ?E sp
                                      (upload_command (u ''./upload/a.txt'') ?R))))]"
  have up: "upload_file ?E (u ''./upload/a.txt'') (u ''/cloud/upload/a.txt'')
              (?st0 @ [Isdir (u ''./upload/a.txt'')]) = (Returned, ?st1)"
    using T [where env = ?E and rf = "u ''/cloud/upload/a.txt''" and lf = "u ''./upload/a.txt''"
               and st = "?st0 @ [Isdir (u ''./upload/a.txt'')]" and sx = sp,
             THEN conjunct2, THEN conjunct2, THEN conjunct2, THEN conjunct2, THEN conjunct1]
    unfolding j using sp by blast
  obtain sb where sb: "ensure_remote_path ?E (u ''/cloud/upload/gone'')
                         (?st1 @ [Isdir (u ''./upload/gone'')]) = (Returned, sb)"
    and csb: "commands sb = commands ?st1 @
                [lsp_command ?R, mkdir_command (u ''/cloud/upload/gone'')]"
    using ens [of "u ''/cloud/upload/gone''" "?st1 @ [Isdir (u ''./upload/gone'')]"]
    unfolding p by auto
  obtain sc where sc: "ensure_remote_path ?E (u ''/cloud/upload/gone'') sb = (Returned, sc)"
    and csc: "commands sc = commands sb @
                [lsp_command ?R, mkdir_command (u ''/cloud/upload/gone'')]"
    using ens [of "u ''/cloud/upload/gone''" sb] unfolding p by auto
  have "upload_main (Suc (Suc 0)) ?E =
          process_local_items (Suc 0) ?E ?L ?R [u ''a.txt'', u ''gone'', u ''z.txt''] ?st0"
    by (simp add: upload_main_def upload_local_path_def upload_remote_path_def sa ld
             del: process_local_items.simps)
  also have "\<dots> = process_local_items (Suc 0) ?E ?L ?R [u ''gone'', u ''z.txt''] ?st1"
    using T [where env = ?E and l = ?L and r = ?R and item = "u ''a.txt''" and st = ?st0
               and d = "Suc 0" and items = "[u ''gone'', u ''z.txt'']" and sx = ?st1,
             THEN conjunct2, THEN conjunct2, THEN conjunct2, THEN conjunct1]
    unfolding j using i(1) up by blast
  also have "\<dots> = (Raised (OSError (u ''./upload/gone'')), sc @ [Listdir (u ''./upload/gone'')])"
    using T [where env = ?E and l = ?L and r = ?R and item = "u ''gone''" and st = ?st1
               and d = 0 and items = "[u ''z.txt'']" and sx = sb and sy = sc,
             THEN conjunct2, THEN conjunct2, THEN conjunct1]
    unfolding j using i(2) ld(2) sb sc by blast
  finally have r: "upload_main (Suc (Suc 0)) ?E =
      (Raised (OSError (u ''./upload/gone'')), sc @ [Listdir (u ''./upload/gone'')])" .
  have "commands (sc @ [Listdir (u ''./upload/gone'')]) =
       [lsp_command (u ''/cloud''), mkdir_command ?R,
        lsp_command (u ''/cloud''), mkdir_command ?R,
        upload_command (u ''./upload/a.txt'') ?R,
        lsp_command ?R, mkdir_command (u ''/cloud/upload/gone''),
        lsp_command ?R, mkdir_command (u ''/cloud/upload/gone'')]"
    by (simp add: csc csb csp csa)
  with r i(2) ld(2) show ?thesis unfolding j c by simp
qed

section \<open>Escaped paths and the shell\<close>

lemma safe_is_plain:
  "is_safe c \<Longrightarrow> c \<noteq> 32 \<and> c \<noteq> 9 \<and> c \<noteq> 39 \<and> c \<noteq> 34 \<and> c \<noteq> 92 \<and> \<not> is_sh_meta c"
  by (auto simp: is_safe_def is_sh_meta_def u_def)

lemma sh_unquoted_safe:
  "list_all is_safe s \<Longrightarrow> sh_unquoted (Some w) s = Words [w @ s]"
proof (induction s arbitrary: w)
  case Nil
  show ?case by simp
next
  case (Cons c s)
  then have "is_safe c" "list_all is_safe s" by simp_all
  with safe_is_plain [of c] Cons.IH [of "w @ [c]"] show ?case
    by (simp add: word_so_far_def)
qed

lemma sh_single_replace_squote:
  "sh_single w (replace_squote s @ 39 # rest) = sh_unquoted (Some (w @ s)) rest"
proof (induction s arbitrary: w)
  case Nil
  show ?case by (simp add: replace_squote_def)
next
  case (Cons c s)
  have r: "replace_squote (x # s) =
             (if x = 39 then [39, 34, 39, 34, 39] else [x]) @ replace_squote s" for x
    by (simp add: replace_squote_def)
  show ?case
    using Cons.IH [of "w @ [c]"] by (cases "c = 39") (simp_all add: r word_so_far_def)
qed

text \<open>
  On its own \<open>shlex.quote\<close> does what it is for: the shell reads the quoted form of
  any string back as one word, the string itself.
\<close>

lemma sh_words_shlex_quote: "sh_words (shlex_quote s) = Words [s]"
proof (cases "s = []")
  case True
  then show ?thesis by (simp add: sh_words_def shlex_quote_def word_so_far_def)
next
  case False
  show ?thesis
  proof (cases "list_all is_safe s")
    case True
    from False obtain c cs where s: "s = c # cs" by (cases s) auto
    with True have "is_safe c" "list_all is_safe cs" by simp_all
    with safe_is_plain [of c] sh_unquoted_safe [of cs "[c]"] show ?thesis
      using True False by (simp add: sh_words_def shlex_quote_def s word_so_far_def)
  next
    case n: False
    have "sh_words (shlex_quote s) = sh_single [] (replace_squote s @ 39 # [])"
      using False n by (simp add: sh_words_def shlex_quote_def word_so_far_def)
    also have "\<dots> = Words [s]" unfolding sh_single_replace_squote by simp
    finally show ?thesis .
  qed
qed

text \<open>
  C1, on the code.  The scripts put the quoted path between the double quotes of the
  \<open>-c\<close> argument.  There a double quote of the path ends that argument early and a
  \<open>$\<close> starts an expansion:
  \<^item> for the path \<open>a b"c\<close> the listing command is not a well-formed command line (its
    last quote is never closed);
  \<^item> for a file of that name under \<open>/cloud/download\<close> the download command splits into
    five words, none of which holds either path;
  \<^item> for the recycle entry \<open>$(reboot)\<close> the shell acts on the \<open>$\<close> of the remove
    command;
  while the quoted form of \<open>a b"c\<close> alone reads back as that one word.
\<close>

theorem escaped_path_inside_double_quotes:
  "lsp_command (u ''a b\"c'') = u ''reccli-ts run -c \"lsp 'a b\"c'\"''
   \<and> sh_words (lsp_command (u ''a b\"c'')) = Unterminated
   \<and> download_command (u ''/cloud/download/a b\"c'') (u ''./download/a b\"c'') =
       u ''reccli-ts run -c \"download '/cloud/download/a b\"c' './download/a b\"c'\"''
   \<and> sh_words (download_command (u ''/cloud/download/a b\"c'') (u ''./download/a b\"c'')) =
       Words [u ''reccli-ts'', u ''run'', u ''-c'',
              u ''download '/cloud/download/a bc ./download/a'', u ''bc'' @ [39]]
   \<and> rm_command (u ''/recycle/$(reboot)'') = u ''reccli-ts run -c \"rm '/recycle/$(reboot)'\"''
   \<and> sh_words (rm_command (u ''/recycle/$(reboot)'')) = Interpreted
   \<and> sh_words (escape_shell_path (u ''a b\"c'')) = Words [u ''a b\"c'']"
proof -
  have 1: "lsp_command (u ''a b\"c'') = u ''reccli-ts run -c \"lsp 'a b\"c'\"''"
    by (simp add: command_eval u_def)
  have 2: "sh_words (u ''reccli-ts run -c \"lsp 'a b\"c'\"'') = Unterminated"
    by (simp add: sh_words_def u_def is_sh_meta_def word_so_far_def add_word_def)
  have 3: "download_command (u ''/cloud/download/a b\"c'') (u ''./download/a b\"c'') =
       u ''reccli-ts run -c \"download '/cloud/download/a b\"c' './download/a b\"c'\"''"
    by (simp add: command_eval u_def)
  have 4: "sh_words (u ''reccli-ts run -c \"download '/cloud/download/a b\"c' './download/a b\"c'\"'') =
       Words [u ''reccli-ts'', u ''run'', u ''-c'',
              u ''download '/cloud/download/a bc ./download/a'', u ''bc'' @ [39]]"
    by (simp add: sh_words_def u_def is_sh_meta_def word_so_far_def add_word_def)
  have 5: "rm_command (u ''/recycle/$(reboot)'') = u ''reccli-ts run -c \"rm '/recycle/$(reboot)'\"''"
    by (simp add: command_eval u_def)
  have 6: "sh_words (u ''reccli-ts run -c \"rm '/recycle/$(reboot)'\"'') = Interpreted"
    by (simp add: sh_words_def u_def is_sh_meta_def word_so_far_def add_word_def)
  have 7: "sh_words (escape_shell_path (u ''a b\"c'')) = Words [u ''a b\"c'']"
    by (simp add: escape_shell_path_def sh_words_shlex_quote)
  show ?thesis unfolding 1 3 5 using 2 4 6 7 unfolding 1 3 5 by blast
qed

lemma sh_double_plain:
  "\<forall>c \<in> set s. c \<noteq> 34 \<and> c \<noteq> 36 \<and> c \<noteq> 92 \<and> c \<noteq> 96 \<Longrightarrow>
     sh_double w (s @ 34 # rest) = sh_unquoted (Some (w @ s)) rest"
  by (induction s arbitrary: w) simp_all

lemma replace_squote_plain: "39 \<notin> set s \<Longrightarrow> replace_squote s = s"
  by (induction s) (auto simp: replace_squote_def)

lemma shlex_quote_plain:
  assumes "\<forall>c \<in> set p. c \<noteq> 34 \<and> c \<noteq> 36 \<and> c \<noteq> 39 \<and> c \<noteq> 92 \<and> c \<noteq> 96"
  shows "\<forall>c \<in> set (shlex_quote p). c \<noteq> 34 \<and> c \<noteq> 36 \<and> c \<noteq> 92 \<and> c \<noteq> 96"
proof -
  from assms have "39 \<notin> set p" by auto
  then have "replace_squote p = p" by (rule replace_squote_plain)
  then show ?thesis using assms by (auto simp: shlex_quote_def)
qed

lemma sh_words_command_prefix:
  "sh_words (u ''reccli-ts run -c '' @ 34 # rest) =
     add_word (u ''reccli-ts'') (add_word (u ''run'') (add_word (u ''-c'') (sh_double [] rest)))"
  by (simp add: sh_words_def u_def is_sh_meta_def word_so_far_def)

text \<open>
  Where the path has no quote, \<open>$\<close>, backquote or backslash, the double quotes of the
  \<open>-c\<close> argument do no harm: the shell passes \<open>lsp\<close> and the quoted path on as the one
  argument after \<open>-c\<close>, and a second reading of that argument by the same rules gives
  the path back as one word.
\<close>

lemma lsp_command_plain_path:
  assumes "\<forall>c \<in> set p. c \<noteq> 34 \<and> c \<noteq> 36 \<and> c \<noteq> 39 \<and> c \<noteq> 92 \<and> c \<noteq> 96"
  shows "sh_words (lsp_command p) =
           Words [u ''reccli-ts'', u ''run'', u ''-c'', u ''lsp '' @ escape_shell_path p]"
    and "sh_words (u ''lsp '' @ escape_shell_path p) = Words [u ''lsp'', p]"
proof -
  let ?q = "shlex_quote p"
  have q: "\<forall>c \<in> set (u ''lsp '' @ ?q). c \<noteq> 34 \<and> c \<noteq> 36 \<and> c \<noteq> 92 \<and> c \<noteq> 96"
    using shlex_quote_plain [OF assms] by (auto simp: u_def)
  have "lsp_command p = u ''reccli-ts run -c '' @ 34 # ((u ''lsp '' @ ?q) @ 34 # [])"
    by (simp add: lsp_command_def escape_shell_path_def)
  then have "sh_words (lsp_command p) =
               add_word (u ''reccli-ts'') (add_word (u ''run'') (add_word (u ''-c'')
                 (sh_double [] ((u ''lsp '' @ ?q) @ 34 # []))))"
    by (simp only: sh_words_command_prefix)
  also have "sh_double [] ((u ''lsp '' @ ?q) @ 34 # []) = Words [u ''lsp '' @ ?q]"
    unfolding sh_double_plain [OF q] by simp
  finally show "sh_words (lsp_command p) =
           Words [u ''reccli-ts'', u ''run'', u ''-c'', u ''lsp '' @ escape_shell_path p]"
    by (simp add: add_word_def escape_shell_path_def)
  have "sh_words (u ''lsp '' @ ?q) = add_word (u ''lsp'') (sh_words ?q)"
    by (simp add: sh_words_def u_def is_sh_meta_def word_so_far_def)
  then show "sh_words (u ''lsp '' @ escape_shell_path p) = Words [u ''lsp'', p]"
    by (simp add: sh_words_shlex_quote add_word_def escape_shell_path_def)
qed

end
